theory Spec2Isabelle
  imports Complex_Main
begin

section \<open>JavaScript strings and numbers\<close>

text \<open>
  A JavaScript string is modelled as the list of its code units. The log format is
  ASCII, and \<^typ>\<open>char\<close> covers the units 0 to 255; case mapping is modelled on the
  ASCII letters. A number that may be \<open>NaN\<close> is an \<^typ>\<open>int option\<close> with
  \<open>None\<close> for \<open>NaN\<close>; the integers that occur stay far below \<open>2^53\<close>, where
  JavaScript's doubles are exact.
\<close>

definition isWhiteSpace :: "char \<Rightarrow> bool" where
  "isWhiteSpace c = (c \<in> set [CHR 0x09, CHR 0x0A, CHR 0x0B, CHR 0x0C, CHR 0x0D, CHR 0x20, CHR 0xA0])"

definition trim :: "string \<Rightarrow> string" where
  "trim s = rev (dropWhile isWhiteSpace (rev (dropWhile isWhiteSpace s)))"

text \<open>\<open>s.split(c)\<close> for a separator of one character: never the empty list.\<close>

fun split :: "char \<Rightarrow> string \<Rightarrow> string list" where
  "split c [] = [[]]"
| "split c (x # xs) =
     (if x = c then [] # split c xs
      else (case split c xs of [] \<Rightarrow> [[x]] | y # ys \<Rightarrow> (x # y) # ys))"

text \<open>\<open>s.substring(a, b)\<close>: both ends clamped to the length, swapped when \<open>a > b\<close>.\<close>

definition substring :: "string \<Rightarrow> nat \<Rightarrow> nat \<Rightarrow> string" where
  "substring s a b = take (max a b - min a b) (drop (min a b) s)"

definition toUpperChar :: "char \<Rightarrow> char" where
  "toUpperChar c =
     (let n = (of_char c :: nat) in if 97 \<le> n \<and> n \<le> 122 then char_of (n - 32) else c)"

definition toUpperCase :: "string \<Rightarrow> string" where
  "toUpperCase s = map toUpperChar s"

definition startsWith :: "string \<Rightarrow> string \<Rightarrow> bool" where
  "startsWith s p = (take (length p) s = p)"

text \<open>\<open>s.includes(k)\<close>: \<open>k\<close> occurs in \<open>s\<close> as a contiguous run.\<close>

fun includes_str :: "string \<Rightarrow> string \<Rightarrow> bool" where
  "includes_str [] k = (k = [])"
| "includes_str (c # cs) k = (startsWith (c # cs) k \<or> includes_str cs k)"

text \<open>
  \<open>parseInt(s)\<close> with no radix: leading white space, an optional sign, an optional
  \<open>0x\<close> prefix (then base 16), and the longest run of digits; \<open>NaN\<close> when that run
  is empty. \<open>parseInt(undefined)\<close> is \<open>NaN\<close> as well.
\<close>

definition digitValue :: "char \<Rightarrow> nat option" where
  "digitValue c =
     (let n = (of_char c :: nat) in
      if 48 \<le> n \<and> n \<le> 57 then Some (n - 48)
      else if 97 \<le> n \<and> n \<le> 102 then Some (n - 87)
      else if 65 \<le> n \<and> n \<le> 70 then Some (n - 55)
      else None)"

definition isDigitIn :: "nat \<Rightarrow> char \<Rightarrow> bool" where
  "isDigitIn radix c = (case digitValue c of None \<Rightarrow> False | Some v \<Rightarrow> v < radix)"

definition digitsValue :: "nat \<Rightarrow> string \<Rightarrow> nat" where
  "digitsValue radix ds = foldl (\<lambda>acc c. acc * radix + (case digitValue c of None \<Rightarrow> 0 | Some v \<Rightarrow> v)) 0 ds"

definition parseDigits :: "nat \<Rightarrow> string \<Rightarrow> nat option" where
  "parseDigits radix s =
     (let ds = takeWhile (isDigitIn radix) s in
      if ds = [] then None else Some (digitsValue radix ds))"

definition parseUnsigned :: "string \<Rightarrow> nat option" where
  "parseUnsigned s =
     (if startsWith s ''0x'' \<or> startsWith s ''0X'' then parseDigits 16 (drop 2 s)
      else parseDigits 10 s)"

definition parseInt :: "string \<Rightarrow> int option" where
  "parseInt s =
     (case dropWhile isWhiteSpace s of
        [] \<Rightarrow> None
      | c # cs \<Rightarrow>
          if c = CHR ''-'' then map_option (\<lambda>n. - int n) (parseUnsigned cs)
          else if c = CHR ''+'' then map_option int (parseUnsigned cs)
          else map_option int (parseUnsigned (c # cs)))"

text \<open>\<open>parseInt(parts[i])\<close>: a missing element is \<open>undefined\<close>, which parses to \<open>NaN\<close>.\<close>

definition parseIntAt :: "string list \<Rightarrow> nat \<Rightarrow> int option" where
  "parseIntAt parts i = (if i < length parts then parseInt (parts ! i) else None)"

section \<open>Calendar arithmetic\<close>

text \<open>
  Instants are milliseconds since 1970-01-01T00:00:00Z, as \<open>Date.getTime()\<close> gives
  them. Days are counted in the proleptic Gregorian calendar, as JavaScript's
  \<open>Date.UTC\<close> and luxon count them.
\<close>

definition daysFromCivil :: "int \<Rightarrow> int \<Rightarrow> int \<Rightarrow> int" where
  "daysFromCivil y m d =
     (let y' = (if m \<le> 2 then y - 1 else y);
          era = y' div 400;
          yoe = y' - era * 400;
          doy = (153 * (if m > 2 then m - 3 else m + 9) + 2) div 5 + d - 1;
          doe = yoe * 365 + yoe div 4 - yoe div 100 + doy
      in era * 146097 + doe - 719468)"

definition civilFromDays :: "int \<Rightarrow> int \<times> int \<times> int" where
  "civilFromDays z =
     (let z' = z + 719468;
          era = z' div 146097;
          doe = z' - era * 146097;
          yoe = (doe - doe div 1460 + doe div 36524 - doe div 146096) div 365;
          doy = doe - (365 * yoe + yoe div 4 - yoe div 100);
          mp = (5 * doy + 2) div 153;
          d = doy - (153 * mp + 2) div 5 + 1;
          m = (if mp < 10 then mp + 3 else mp - 9);
          y = yoe + era * 400
      in ((if m \<le> 2 then y + 1 else y), m, d))"

definition isLeapYear :: "int \<Rightarrow> bool" where
  "isLeapYear y = (y mod 4 = 0 \<and> (y mod 100 \<noteq> 0 \<or> y mod 400 = 0))"

definition daysInMonth :: "int \<Rightarrow> int \<Rightarrow> int" where
  "daysInMonth y m =
     (if m = 2 then (if isLeapYear y then 29 else 28)
      else if m \<in> {4, 6, 9, 11} then 30 else 31)"

fun digitsOf :: "nat \<Rightarrow> string" where
  "digitsOf n =
     (if n < 10 then [char_of (48 + n)]
      else digitsOf (n div 10) @ [char_of (48 + n mod 10)])"

definition padStart :: "nat \<Rightarrow> nat \<Rightarrow> string" where
  "padStart w n = replicate (w - length (digitsOf n)) (CHR ''0'') @ digitsOf n"

text \<open>
  The ISO 8601 text of a UTC instant as luxon's \<open>toISO()\<close> prints it: milliseconds
  always present, \<open>Z\<close> for UTC, and a signed six-digit year outside 0..9999.
\<close>

definition isoYear :: "int \<Rightarrow> string" where
  "isoYear y =
     (if y > 9999 then CHR ''+'' # padStart 6 (nat y)
      else if y < 0 then CHR ''-'' # padStart 6 (nat (- y))
      else padStart 4 (nat y))"

definition toISO :: "int \<Rightarrow> string" where
  "toISO ms =
     (let day = ms div 86400000;
          r = ms mod 86400000;
          (y, m, d) = civilFromDays day
      in isoYear y @ ''-'' @ padStart 2 (nat m) @ ''-'' @ padStart 2 (nat d) @ ''T''
         @ padStart 2 (nat (r div 3600000)) @ '':''
         @ padStart 2 (nat (r div 60000 mod 60)) @ '':''
         @ padStart 2 (nat (r div 1000 mod 60)) @ ''.''
         @ padStart 3 (nat (r mod 1000)) @ ''Z'')"

text \<open>
  \<open>new Date(s).getTime()\<close> on the ISO texts above (\<open>None\<close> is \<open>NaN\<close>, an invalid
  date). A day past the end of its month is read as invalid, where some engines roll it
  over into the next month. JavaScript accepts further, implementation-defined formats;
  they are not modelled here, and every function of the handler that reads a date takes the reader
  as a parameter \<open>getTime\<close>, so that its theorems hold for any reader.
\<close>

definition allDigits :: "string \<Rightarrow> bool" where
  "allDigits s = (s \<noteq> [] \<and> list_all (isDigitIn 10) s)"

definition isoFields :: "string \<Rightarrow> (string \<times> string) option" where
  "isoFields s =
     (case s of
        [] \<Rightarrow> None
      | c # cs \<Rightarrow>
          if c = CHR ''+'' \<or> c = CHR ''-'' then
            (if length cs = 26 then Some (c # take 6 cs, drop 6 cs) else None)
          else if length s = 24 then Some (take 4 s, drop 4 s) else None)"

definition isoYearValue :: "string \<Rightarrow> int option" where
  "isoYearValue ys =
     (case ys of
        [] \<Rightarrow> None
      | c # cs \<Rightarrow>
          if c = CHR ''+'' then (if allDigits cs then Some (int (digitsValue 10 cs)) else None)
          else if c = CHR ''-'' then
            (if allDigits cs \<and> digitsValue 10 cs \<noteq> 0 then Some (- int (digitsValue 10 cs))
             else None)
          else if allDigits ys then Some (int (digitsValue 10 ys)) else None)"

definition dateGetTime :: "string \<Rightarrow> int option" where
  "dateGetTime s =
     (case isoFields s of
        None \<Rightarrow> None
      | Some (ys, r) \<Rightarrow>
          (case isoYearValue ys of
             None \<Rightarrow> None
           | Some y \<Rightarrow>
               let mo = substring r 1 3; d = substring r 4 6; h = substring r 7 9;
                   mi = substring r 10 12; se = substring r 13 15; ms = substring r 16 19
               in
               if r ! 0 = CHR ''-'' \<and> r ! 3 = CHR ''-'' \<and> r ! 6 = CHR ''T'' \<and> r ! 9 = CHR '':''
                  \<and> r ! 12 = CHR '':'' \<and> r ! 15 = CHR ''.'' \<and> r ! 19 = CHR ''Z''
                  \<and> allDigits mo \<and> allDigits d \<and> allDigits h \<and> allDigits mi
                  \<and> allDigits se \<and> allDigits ms
               then
                 (let M = int (digitsValue 10 mo); D = int (digitsValue 10 d);
                      H = int (digitsValue 10 h); MI = int (digitsValue 10 mi);
                      S = int (digitsValue 10 se); MS = int (digitsValue 10 ms)
                  in if 1 \<le> M \<and> M \<le> 12 \<and> 1 \<le> D \<and> D \<le> daysInMonth y M
                        \<and> (H \<le> 23 \<or> (H = 24 \<and> MI = 0 \<and> S = 0 \<and> MS = 0))
                        \<and> MI \<le> 59 \<and> S \<le> 59
                     then Some ((((daysFromCivil y M D * 24 + H) * 60 + MI) * 60 + S) * 1000 + MS)
                     else None)
               else None))"

section \<open>The log parser (logParser.ts)\<close>

subsection \<open>Entries\<close>

text \<open>
  \<open>isBillboard\<close> is declared \<open>string | boolean\<close>: it holds the value of an
  \<open>&&\<close> chain, which is the first falsy operand or else the last one.
\<close>

datatype strOrBool = JStr string | JBool bool

fun truthy :: "strOrBool \<Rightarrow> bool" where
  "truthy (JStr s) = (s \<noteq> [])"
| "truthy (JBool b) = b"

text \<open>A \<open>string | null\<close> used as a condition: \<open>null\<close> and the empty string are falsy.\<close>

fun truthyStr :: "string option \<Rightarrow> bool" where
  "truthyStr None = False"
| "truthyStr (Some s) = (s \<noteq> [])"

datatype BillboardType = OpenBillboard | MiddleBillboard | CloseBillboard

record LogEntry =
  lineNumber :: nat
  marketChannel :: string
  dateTime :: "string option"
  localDateTime :: "string option"
  time :: "string option"
  materialKey :: string
  materialType :: string
  databaseTitle :: string
  isBillboard :: strOrBool
  billboardType :: "BillboardType option"
  rawLine :: string

text \<open>
  An array of entries holds references. An element is modelled as the pair of the
  object's address and the object found there (entries are never mutated); two
  elements are the same object exactly when their addresses are equal.
\<close>

type_synonym entryRef = "nat \<times> LogEntry"

record ParsedLogData =
  billboards :: "entryRef list"
  programs :: "entryRef list"
  allEntries :: "entryRef list"

subsection \<open>Time zones\<close>

text \<open>
  \<open>timezoneMap[region] || "Australia/Sydney"\<close> reads a property of an object literal:
  besides the five keys of the literal, the lookup finds the members that every object
  inherits from \<open>Object.prototype\<close>. Each of those is a function (or, for
  \<open>__proto__\<close>, the prototype object): truthy, and not a string.
\<close>

datatype zoneValue = ZoneName string | Inherited string

definition objectPrototypeKeys :: "string list" where
  "objectPrototypeKeys =
     [''constructor'', ''hasOwnProperty'', ''isPrototypeOf'', ''propertyIsEnumerable'',
      ''toLocaleString'', ''toString'', ''valueOf'', ''__defineGetter__'',
      ''__defineSetter__'', ''__lookupGetter__'', ''__lookupSetter__'', ''__proto__'']"

definition timezoneMap :: "(string \<times> string) list" where
  "timezoneMap =
     [(''SYD'', ''Australia/Sydney''), (''MEL'', ''Australia/Melbourne''),
      (''BNE'', ''Australia/Brisbane''), (''PER'', ''Australia/Perth''),
      (''ADL'', ''Australia/Adelaide'')]"

definition getTimezoneForRegion :: "string \<Rightarrow> zoneValue" where
  "getTimezoneForRegion region =
     (case map_of timezoneMap region of
        Some z \<Rightarrow> ZoneName z
      | None \<Rightarrow>
          if region \<in> set objectPrototypeKeys then Inherited region
          else ZoneName ''Australia/Sydney'')"

text \<open>
  luxon's \<open>DateTime.fromObject({year, month, day, hour, minute, second}, {zone})
  .toUTC().toISO()\<close>. The time zone database is a parameter: \<open>tz zone local\<close> is the
  offset from UTC, in minutes, that luxon resolves in \<open>zone\<close> for the wall-clock time
  \<open>local\<close> (milliseconds, read as if UTC). A zone that is not a string is invalid, a
  \<open>NaN\<close> unit raises \<open>InvalidArgumentError\<close>, and a unit out of range gives an
  invalid \<open>DateTime\<close>, whose \<open>toISO()\<close> is \<open>null\<close>.
\<close>

type_synonym tzdb = "string \<Rightarrow> int \<Rightarrow> int"

datatype jsError = InvalidArgumentError

definition localMillis :: "int \<Rightarrow> int \<Rightarrow> int \<Rightarrow> int \<Rightarrow> int \<Rightarrow> int \<Rightarrow> int" where
  "localMillis y m d h mi s = (((daysFromCivil y m d * 24 + h) * 60 + mi) * 60 + s) * 1000"

definition validUnits :: "int \<Rightarrow> int \<Rightarrow> int \<Rightarrow> int \<Rightarrow> int \<Rightarrow> int \<Rightarrow> bool" where
  "validUnits y m d h mi s =
     (1 \<le> m \<and> m \<le> 12 \<and> 1 \<le> d \<and> d \<le> daysInMonth y m
      \<and> ((0 \<le> h \<and> h \<le> 23) \<or> (h = 24 \<and> mi = 0 \<and> s = 0))
      \<and> 0 \<le> mi \<and> mi \<le> 59 \<and> 0 \<le> s \<and> s \<le> 59)"

definition fromObjectToUTCISO ::
  "tzdb \<Rightarrow> zoneValue \<Rightarrow> int option \<Rightarrow> int option \<Rightarrow> int option \<Rightarrow> int option \<Rightarrow>
   int option \<Rightarrow> int option \<Rightarrow> jsError + string option" where
  "fromObjectToUTCISO tz zone year month day hour minute second =
     (case zone of
        Inherited k \<Rightarrow> Inr None
      | ZoneName z \<Rightarrow>
          (case (year, month, day, hour, minute, second) of
             (Some y, Some m, Some d, Some h, Some mi, Some s) \<Rightarrow>
               if validUnits y m d h mi s then
                 (let local = localMillis y m d h mi s
                  in Inr (Some (toISO (local - tz z local * 60 * 1000))))
               else Inr None
           | _ \<Rightarrow> Inl InvalidArgumentError))"

definition convertToUTC ::
  "tzdb \<Rightarrow> string \<Rightarrow> string \<Rightarrow> string \<Rightarrow> string \<Rightarrow> string \<Rightarrow> string \<Rightarrow> string \<Rightarrow>
   jsError + string option" where
  "convertToUTC tz yyyy mm dd hh mi ss region =
     (let year = parseInt yyyy; month = parseInt mm; day = parseInt dd;
          hour = parseInt hh; minute = parseInt mi; second = parseInt ss;
          timezone = getTimezoneForRegion region
      in fromObjectToUTCISO tz timezone year month day hour minute second)"

subsection \<open>parseLogs\<close>

text \<open>
  The timestamp block of the loop body: the values of \<open>dateTime\<close>,
  \<open>localDateTime\<close> and \<open>timeStr\<close> after it. The two local strings are assigned
  before \<open>convertToUTC\<close> is called, and the \<open>catch\<close> around the block swallows its
  exception.
\<close>

definition parseTimestamp ::
  "tzdb \<Rightarrow> string \<Rightarrow> string \<Rightarrow> string option \<times> string option \<times> string option" where
  "parseTimestamp tz region dateTimeRaw =
     (if dateTimeRaw \<noteq> [] \<and> length dateTimeRaw \<ge> 17 then
        (let parts = split (CHR '' '') dateTimeRaw in
         if length parts \<ge> 2 then
           (let datePart = parts ! 0; timePart = parts ! 1 in
            if length datePart \<ge> 8 then
              (let yyyy = substring datePart 0 4;
                   mm = substring datePart 4 6;
                   dd = substring datePart 6 8;
                   timeComponents = split (CHR '':'') timePart
               in
               if length timeComponents \<ge> 3 then
                 (let hh = timeComponents ! 0;
                      mi = timeComponents ! 1;
                      ss = timeComponents ! 2;
                      localDateTime' = yyyy @ ''-'' @ mm @ ''-'' @ dd @ ''T'' @ hh @ '':'' @ mi @ '':'' @ ss;
                      timeStr = hh @ '':'' @ mi @ '':'' @ ss
                  in
                  (case convertToUTC tz yyyy mm dd hh mi ss region of
                     Inl e \<Rightarrow> (None, Some localDateTime', Some timeStr)
                   | Inr utcDateTime \<Rightarrow> (utcDateTime, Some localDateTime', Some timeStr)))
               else (None, None, None))
            else (None, None, None))
         else (None, None, None))
      else (None, None, None))"

definition billboardFlag :: "string \<Rightarrow> string \<Rightarrow> strOrBool" where
  "billboardFlag mType title =
     (if mType \<noteq> ''I'' then JBool False
      else if title = [] then JStr title
      else JBool (startsWith title ''OB'' \<or> startsWith title ''MB'' \<or> startsWith title ''CB''))"

definition billboardKind :: "strOrBool \<Rightarrow> string \<Rightarrow> BillboardType option" where
  "billboardKind isBb title =
     (if truthy isBb then
        (if startsWith title ''OB'' then Some OpenBillboard
         else if startsWith title ''MB'' then Some MiddleBillboard
         else if startsWith title ''CB'' then Some CloseBillboard
         else None)
      else None)"

text \<open>Whether the loop body reaches the \<open>try\<close> block for a line.\<close>

definition keptLine :: "string \<Rightarrow> bool" where
  "keptLine line = (trim line \<noteq> [] \<and> \<not> length line < 360)"

text \<open>The entry that the \<open>try\<close> block builds from a kept line.\<close>

definition parseLine :: "tzdb \<Rightarrow> string \<Rightarrow> nat \<Rightarrow> string \<Rightarrow> LogEntry" where
  "parseLine tz region lineNum line =
     (let marketChannel' = trim (substring line 0 6);
          dateTimeRaw = trim (substring line 55 75);
          materialKey' = trim (substring line 119 151);
          materialType' = (if length line > 188 then [line ! 188] else []);
          databaseTitle' = (if length line > 295 then trim (substring line 295 359) else []);
          (dateTime', localDateTime', timeStr) = parseTimestamp tz region dateTimeRaw;
          isBillboard' = billboardFlag materialType' databaseTitle';
          billboardType' = billboardKind isBillboard' databaseTitle'
      in \<lparr> lineNumber = lineNum + 1,
           marketChannel = marketChannel',
           dateTime = dateTime',
           localDateTime = localDateTime',
           time = timeStr,
           materialKey = materialKey',
           materialType = materialType',
           databaseTitle = databaseTitle',
           isBillboard = isBillboard',
           billboardType = billboardType',
           rawLine = trim line \<rparr>)"

text \<open>
  One round of the loop over the lines. The entry object created in round \<open>lineNum\<close>
  is given the address \<open>lineNum\<close>. Nothing in the \<open>try\<close> block raises (the only
  exception, from \<open>convertToUTC\<close>, is caught inside it), so the outer \<open>catch\<close> never
  runs.
\<close>

definition pushEntry :: "entryRef \<Rightarrow> ParsedLogData \<Rightarrow> ParsedLogData" where
  "pushEntry e result =
     (let r1 = result\<lparr> allEntries := allEntries result @ [e] \<rparr> in
      if truthy (isBillboard (snd e)) then r1\<lparr> billboards := billboards r1 @ [e] \<rparr>
      else if materialType (snd e) = ''M'' \<or> materialType (snd e) = ''S''
        then r1\<lparr> programs := programs r1 @ [e] \<rparr>
      else r1)"

fun parseLoop :: "tzdb \<Rightarrow> string \<Rightarrow> string list \<Rightarrow> nat \<Rightarrow> ParsedLogData \<Rightarrow> ParsedLogData" where
  "parseLoop tz region [] lineNum result = result"
| "parseLoop tz region (line # rest) lineNum result =
     (if keptLine line
      then parseLoop tz region rest (lineNum + 1)
             (pushEntry (lineNum, parseLine tz region lineNum line) result)
      else parseLoop tz region rest (lineNum + 1) result)"

definition parseLogs :: "tzdb \<Rightarrow> string \<Rightarrow> string \<Rightarrow> ParsedLogData" where
  "parseLogs tz logFileContent region =
     parseLoop tz region (split (CHR 0x0A) logFileContent) 0
       \<lparr> billboards = [], programs = [], allEntries = [] \<rparr>"

subsection \<open>getBillboardsForProgram\<close>

text \<open>
  Seconds since midnight of an \<open>HH:MM:SS\<close> text: \<open>NaN\<close> (\<open>None\<close>) when a part is
  missing or is no number. A comparison with \<open>NaN\<close> is false.
\<close>

definition timeSeconds :: "string \<Rightarrow> int option" where
  "timeSeconds t =
     (let parts = split (CHR '':'') t in
      case (parseIntAt parts 0, parseIntAt parts 1, parseIntAt parts 2) of
        (Some h, Some m, Some s) \<Rightarrow> Some (h * 3600 + m * 60 + s)
      | _ \<Rightarrow> None)"

definition numLe :: "int option \<Rightarrow> int option \<Rightarrow> bool" where
  "numLe a b = (case (a, b) of (Some x, Some y) \<Rightarrow> x \<le> y | _ \<Rightarrow> False)"

definition numLt :: "int option \<Rightarrow> int option \<Rightarrow> bool" where
  "numLt a b = (case (a, b) of (Some x, Some y) \<Rightarrow> x < y | _ \<Rightarrow> False)"

definition titleMatches :: "LogEntry \<Rightarrow> string \<Rightarrow> bool" where
  "titleMatches e kw = includes_str (toUpperCase (databaseTitle e)) (toUpperCase kw)"

definition isProgramType :: "LogEntry \<Rightarrow> bool" where
  "isProgramType e = (materialType e = ''M'' \<or> materialType e = ''S'')"

text \<open>\<open>matchingBillboards.includes(billboard)\<close>: the same object, not an equal one.\<close>

definition includesRef :: "entryRef list \<Rightarrow> entryRef \<Rightarrow> bool" where
  "includesRef xs x = (fst x \<in> set (map fst xs))"

text \<open>
  The loop over \<open>logData.allEntries\<close> that sets \<open>nextProgSeconds\<close>: \<open>None\<close> is
  \<open>null\<close> (the loop ended without a \<open>break\<close>), \<open>Some None\<close> is \<open>NaN\<close>.
\<close>

fun nextProgSecondsLoop :: "entryRef list \<Rightarrow> nat \<Rightarrow> int option option" where
  "nextProgSecondsLoop [] programLine = None"
| "nextProgSecondsLoop (entry # rest) programLine =
     (if lineNumber (snd entry) > programLine \<and> isProgramType (snd entry) then
        (case time (snd entry) of
           Some t \<Rightarrow> if t \<noteq> [] then Some (timeSeconds t) else nextProgSecondsLoop rest programLine
         | None \<Rightarrow> nextProgSecondsLoop rest programLine)
      else nextProgSecondsLoop rest programLine)"

definition inWindow :: "int option \<Rightarrow> int option option \<Rightarrow> int option \<Rightarrow> bool" where
  "inWindow progSeconds nextProgSeconds bbSeconds =
     (case nextProgSeconds of
        Some next \<Rightarrow> numLe progSeconds bbSeconds \<and> numLt bbSeconds next
      | None \<Rightarrow> numLe progSeconds bbSeconds)"

fun billboardLoop ::
  "entryRef list \<Rightarrow> int option \<Rightarrow> int option option \<Rightarrow> entryRef list \<Rightarrow> entryRef list" where
  "billboardLoop [] progSeconds nextProgSeconds matchingBillboards = matchingBillboards"
| "billboardLoop (billboard # rest) progSeconds nextProgSeconds matchingBillboards =
     (case time (snd billboard) of
        None \<Rightarrow> billboardLoop rest progSeconds nextProgSeconds matchingBillboards
      | Some t \<Rightarrow>
          if t = [] then billboardLoop rest progSeconds nextProgSeconds matchingBillboards
          else if inWindow progSeconds nextProgSeconds (timeSeconds t)
                  \<and> \<not> includesRef matchingBillboards billboard
            then billboardLoop rest progSeconds nextProgSeconds (matchingBillboards @ [billboard])
          else billboardLoop rest progSeconds nextProgSeconds matchingBillboards)"

fun programInstancesLoop ::
  "ParsedLogData \<Rightarrow> entryRef list \<Rightarrow> entryRef list \<Rightarrow> entryRef list" where
  "programInstancesLoop logData [] matchingBillboards = matchingBillboards"
| "programInstancesLoop logData (program # rest) matchingBillboards =
     (case time (snd program) of
        None \<Rightarrow> programInstancesLoop logData rest matchingBillboards
      | Some t \<Rightarrow>
          if t = [] then programInstancesLoop logData rest matchingBillboards
          else
            (let progSeconds = timeSeconds t;
                 programLine = lineNumber (snd program);
                 nextProgSeconds = nextProgSecondsLoop (allEntries logData) programLine
             in programInstancesLoop logData rest
                  (billboardLoop (billboards logData) progSeconds nextProgSeconds
                     matchingBillboards)))"

definition getBillboardsForProgram :: "ParsedLogData \<Rightarrow> string \<Rightarrow> entryRef list" where
  "getBillboardsForProgram logData programKeyword =
     (let programInstances = filter (\<lambda>program. titleMatches (snd program) programKeyword)
                               (programs logData)
      in if length programInstances = 0 then []
         else programInstancesLoop logData programInstances [])"

section \<open>The ingestion handler (index.ts)\<close>

subsection \<open>File names\<close>

datatype Channel = CH9 | GO | GEM

datatype Region = SYD | MEL | BNE | PER | ADL

text \<open>A Prisma enum value is the string of its name.\<close>

fun regionName :: "Region \<Rightarrow> string" where
  "regionName SYD = ''SYD''"
| "regionName MEL = ''MEL''"
| "regionName BNE = ''BNE''"
| "regionName PER = ''PER''"
| "regionName ADL = ''ADL''"

text \<open>
  The keys looked up in \<open>channelMap\<close> and \<open>regionMap\<close> are upper-cased, so they are
  never one of the names inherited from \<open>Object.prototype\<close> (each of those has a
  lower-case letter).
\<close>

definition mapChannel :: "string \<Rightarrow> Channel option" where
  "mapChannel logChannel =
     map_of [(''NINE'', CH9), (''GO'', GO), (''GEM'', GEM)] (toUpperCase logChannel)"

definition mapRegion :: "string \<Rightarrow> Region option" where
  "mapRegion logRegion =
     map_of [(''SYD'', SYD), (''MEL'', MEL), (''BRI'', BNE), (''BNE'', BNE), (''PER'', PER),
             (''ADL'', ADL), (''ADE'', ADL)] (toUpperCase logRegion)"

text \<open>
  The regular expression \<open>/(\d{8})_(\w+)-(\w+)\.LOG/i\<close>, unanchored. A greedy
  \<open>\w+\<close> followed by a character outside \<open>\w\<close> can only stop at the end of the run
  of word characters, so a match at a position is found without backtracking.
\<close>

definition isWordChar :: "char \<Rightarrow> bool" where
  "isWordChar c =
     (let n = (of_char c :: nat) in
      (48 \<le> n \<and> n \<le> 57) \<or> (65 \<le> n \<and> n \<le> 90) \<or> (97 \<le> n \<and> n \<le> 122) \<or> n = 95)"

definition matchLogNameAt :: "string \<Rightarrow> (string \<times> string \<times> string) option" where
  "matchLogNameAt s =
     (let dateStr = take 8 s; r1 = drop 8 s in
      if length dateStr = 8 \<and> list_all (isDigitIn 10) dateStr \<and> take 1 r1 = ''_'' then
        (let regionStr = takeWhile isWordChar (drop 1 r1);
             r2 = dropWhile isWordChar (drop 1 r1)
         in
         if regionStr \<noteq> [] \<and> take 1 r2 = ''-'' then
           (let channelStr = takeWhile isWordChar (drop 1 r2);
                r3 = dropWhile isWordChar (drop 1 r2)
            in
            if channelStr \<noteq> [] \<and> toUpperCase (take 4 r3) = ''.LOG''
            then Some (dateStr, regionStr, channelStr) else None)
         else None)
      else None)"

fun matchLogName :: "string \<Rightarrow> (string \<times> string \<times> string) option" where
  "matchLogName [] = matchLogNameAt []"
| "matchLogName (c # cs) =
     (case matchLogNameAt (c # cs) of Some m \<Rightarrow> Some m | None \<Rightarrow> matchLogName cs)"

text \<open>
  \<open>new Date(year, month, day)\<close>, a local midnight, as its day number: a year from 0 to
  99 counts from 1900, and a month or day out of range carries over.
\<close>

definition newDateYMD :: "int \<Rightarrow> int \<Rightarrow> int \<Rightarrow> int" where
  "newDateYMD y m d =
     (let y' = (if 0 \<le> y \<and> y \<le> 99 then 1900 + y else y)
      in daysFromCivil (y' + m div 12) (m mod 12 + 1) 1 + d - 1)"

record FileMetadata =
  date :: int
  region :: Region
  channel :: Channel

text \<open>The eight digits of \<open>dateStr\<close> always parse, so the last case never applies.\<close>

definition parseLogFileName :: "string \<Rightarrow> FileMetadata option" where
  "parseLogFileName fileName =
     (case matchLogName fileName of
        None \<Rightarrow> None
      | Some (dateStr, regionStr, channelStr) \<Rightarrow>
          (case (mapRegion regionStr, mapChannel channelStr) of
             (Some r, Some c) \<Rightarrow>
               (case (parseInt (substring dateStr 0 4), parseInt (substring dateStr 4 6),
                      parseInt (substring dateStr 6 8)) of
                  (Some y, Some m, Some d) \<Rightarrow>
                    Some \<lparr> date = newDateYMD y (m - 1) d, region = r, channel = c \<rparr>
                | _ \<Rightarrow> None)
           | _ \<Rightarrow> None))"

subsection \<open>The store\<close>

text \<open>
  The Prisma tables the handler reads and writes, as lists in insertion order. Ids are
  natural numbers, a new row getting one above every id in its table. A Day's display
  name is left out (formatted text that nothing reads). Calls to the store are taken
  to succeed.
\<close>

record Program =
  progId :: nat
  progName :: string
  keyword :: string
  year :: int

record Day =
  dayId :: nat
  dayDate :: int
  dayProgramId :: nat

datatype BroadcastStatus = PENDING

record Broadcast =
  name :: string
  startTime :: int
  endTime :: int
  status :: BroadcastStatus
  bChannel :: Channel
  bRegion :: Region
  bDayId :: nat

record LogFile =
  s3_key :: string
  lfDayId :: nat
  lfRegion :: Region
  lfChannel :: Channel

record Store =
  catalog :: "Program list"
  days :: "Day list"
  broadcasts :: "Broadcast list"
  logFiles :: "LogFile list"

definition findDay :: "Store \<Rightarrow> nat \<Rightarrow> int \<Rightarrow> Day option" where
  "findDay db pid d = find (\<lambda>x. dayProgramId x = pid \<and> dayDate x = d) (days db)"

definition createDay :: "Store \<Rightarrow> nat \<Rightarrow> int \<Rightarrow> Day \<times> Store" where
  "createDay db pid d =
     (let day = \<lparr> dayId = Suc (foldr max (map dayId (days db)) 0), dayDate = d,
                   dayProgramId = pid \<rparr>
      in (day, db\<lparr> days := days db @ [day] \<rparr>))"

text \<open>
  The \<open>where\<close> clause of \<open>prisma.broadcast.findFirst\<close>: the three alternatives of
  its \<open>OR\<close>, for a new broadcast from \<open>newStart\<close> to \<open>newEnd\<close>.
\<close>

definition overlapCondition :: "Broadcast \<Rightarrow> int \<Rightarrow> int \<Rightarrow> bool" where
  "overlapCondition b newStart newEnd =
     ((startTime b \<le> newStart \<and> endTime b > newStart)
      \<or> (startTime b < newEnd \<and> endTime b \<ge> newEnd)
      \<or> (startTime b \<ge> newStart \<and> endTime b \<le> newEnd))"

definition findOverlappingBroadcast ::
  "Store \<Rightarrow> nat \<Rightarrow> Channel \<Rightarrow> Region \<Rightarrow> int \<Rightarrow> int \<Rightarrow> Broadcast option" where
  "findOverlappingBroadcast db did ch rg newStart newEnd =
     find (\<lambda>b. bDayId b = did \<and> bChannel b = ch \<and> bRegion b = rg
                \<and> overlapCondition b newStart newEnd) (broadcasts db)"

subsection \<open>Segments\<close>

record BroadcastSegment =
  startEntry :: entryRef
  endEntry :: entryRef

text \<open>
  \<open>e.dateTime ? new Date(e.dateTime) : null\<close>: \<open>None\<close> is \<open>null\<close>, \<open>Some None\<close>
  an invalid date, whose \<open>getTime()\<close> is \<open>NaN\<close>.
\<close>

definition entryDate :: "(string \<Rightarrow> int option) \<Rightarrow> LogEntry \<Rightarrow> int option option" where
  "entryDate getTime e =
     (case dateTime e of
        None \<Rightarrow> None
      | Some s \<Rightarrow> if s = [] then None else Some (getTime s))"

definition MAX_GAP_MINUTES :: rat where
  "MAX_GAP_MINUTES = 30"

text \<open>
  The test \<open>currentTime && nextTime\<close> followed by \<open>gapMinutes > MAX_GAP_MINUTES\<close>.
  The quotient is taken in the rationals; on integers of this size the double
  division of the source decides \<open>> 30\<close> the same way.
\<close>

definition gapExceeds :: "(string \<Rightarrow> int option) \<Rightarrow> LogEntry \<Rightarrow> LogEntry \<Rightarrow> bool" where
  "gapExceeds getTime currentEntry nextEntry =
     (case (entryDate getTime currentEntry, entryDate getTime nextEntry) of
        (Some currentTime, Some nextTime) \<Rightarrow>
          (case (currentTime, nextTime) of
             (Some c, Some n) \<Rightarrow> of_int (n - c) / (1000 * 60) > MAX_GAP_MINUTES
           | _ \<Rightarrow> False)
      | _ \<Rightarrow> False)"

text \<open>
  The loop \<open>for (let i = 0; i < matchingEntries.length; i++)\<close>, from round \<open>i\<close> on;
  \<open>nextEntry\<close> is \<open>undefined\<close> exactly in the last round.
\<close>

function segmentLoop ::
  "(string \<Rightarrow> int option) \<Rightarrow> entryRef list \<Rightarrow> nat \<Rightarrow> nat \<Rightarrow> BroadcastSegment list \<Rightarrow>
   BroadcastSegment list" where
  "segmentLoop getTime matchingEntries i currentSegmentStart broadcastSegments =
     (if i < length matchingEntries then
        (let currentEntry = matchingEntries ! i in
         if \<not> i + 1 < length matchingEntries then
           segmentLoop getTime matchingEntries (i + 1) currentSegmentStart
             (broadcastSegments @
                [\<lparr> startEntry = matchingEntries ! currentSegmentStart,
                    endEntry = currentEntry \<rparr>])
         else if gapExceeds getTime (snd currentEntry) (snd (matchingEntries ! (i + 1))) then
           segmentLoop getTime matchingEntries (i + 1) (i + 1)
             (broadcastSegments @
                [\<lparr> startEntry = matchingEntries ! currentSegmentStart,
                    endEntry = currentEntry \<rparr>])
         else segmentLoop getTime matchingEntries (i + 1) currentSegmentStart broadcastSegments)
      else broadcastSegments)"
  by pat_completeness auto
termination
  by (relation "measure (\<lambda>(g, xs, i, c, acc). length xs - i)") auto

declare segmentLoop.simps [simp del]

definition buildSegments ::
  "(string \<Rightarrow> int option) \<Rightarrow> entryRef list \<Rightarrow> BroadcastSegment list" where
  "buildSegments getTime matchingEntries = segmentLoop getTime matchingEntries 0 0 []"

subsection \<open>One file\<close>

record FileState =
  store :: Store
  daysNeedingLogFiles :: "nat list"
  results :: "(string \<times> int \<times> int) list"

definition twoHours :: int where
  "twoHours = 2 * 60 * 60 * 1000"

text \<open>The end time of a segment: the block from \<open>let endTime\<close> to the overlap query.\<close>

definition nextDifferentProgram ::
  "entryRef list \<Rightarrow> string \<Rightarrow> entryRef \<Rightarrow> entryRef option" where
  "nextDifferentProgram progs kw endE =
     find (\<lambda>e. lineNumber (snd e) > lineNumber (snd endE)
                \<and> \<not> titleMatches (snd e) kw
                \<and> truthyStr (dateTime (snd e))) progs"

definition resolveEndTime ::
  "(string \<Rightarrow> int option) \<Rightarrow> entryRef list \<Rightarrow> string \<Rightarrow> entryRef \<Rightarrow> int \<Rightarrow> int" where
  "resolveEndTime getTime progs kw endE startT =
     (case nextDifferentProgram progs kw endE of
        None \<Rightarrow> startT + twoHours
      | Some e \<Rightarrow>
          (case entryDate getTime (snd e) of
             None \<Rightarrow> startT + twoHours
           | Some None \<Rightarrow> startT + twoHours
           | Some (Some t) \<Rightarrow> t))"

definition processSegment ::
  "(string \<Rightarrow> int option) \<Rightarrow> ParsedLogData \<Rightarrow> Program \<Rightarrow> FileMetadata \<Rightarrow> Day \<Rightarrow>
   FileState \<Rightarrow> BroadcastSegment \<Rightarrow> FileState" where
  "processSegment getTime parsedLogs program meta day st segment =
     (if \<not> truthyStr (time (snd (startEntry segment)))
         \<or> \<not> truthyStr (dateTime (snd (startEntry segment))) then st
      else
        (case entryDate getTime (snd (startEntry segment)) of
           None \<Rightarrow> st
         | Some None \<Rightarrow> st
         | Some (Some startT) \<Rightarrow>
             (let endT = resolveEndTime getTime (programs parsedLogs) (keyword program)
                           (endEntry segment) startT
              in
              case findOverlappingBroadcast (store st) (dayId day) (channel meta) (region meta)
                     startT endT of
                Some b \<Rightarrow> st
              | None \<Rightarrow>
                  st\<lparr> store := (store st)\<lparr> broadcasts := broadcasts (store st) @
                         [\<lparr> name = databaseTitle (snd (startEntry segment)) @ '' ('' @
                                    regionName (region meta) @ '')'',
                             startTime = startT, endTime = endT, status = PENDING,
                             bChannel = channel meta, bRegion = region meta,
                             bDayId = dayId day \<rparr>] \<rparr>,
                      results := results st @ [(progName program, startT, endT)] \<rparr>)))"

definition matchingEntriesOf :: "ParsedLogData \<Rightarrow> Program \<Rightarrow> entryRef list" where
  "matchingEntriesOf parsedLogs program =
     filter (\<lambda>logEntry. titleMatches (snd logEntry) (keyword program)) (programs parsedLogs)"

definition findOrCreateDay :: "Store \<Rightarrow> nat \<Rightarrow> int \<Rightarrow> Day \<times> Store" where
  "findOrCreateDay db pid d =
     (case findDay db pid d of Some day \<Rightarrow> (day, db) | None \<Rightarrow> createDay db pid d)"

text \<open>\<open>Set.add\<close>: a set keeps its elements in insertion order.\<close>

definition setAdd :: "nat list \<Rightarrow> nat \<Rightarrow> nat list" where
  "setAdd xs x = (if x \<in> set xs then xs else xs @ [x])"

text \<open>One round of \<open>for (const program of programs)\<close>.\<close>

definition processProgram ::
  "(string \<Rightarrow> int option) \<Rightarrow> ParsedLogData \<Rightarrow> FileMetadata \<Rightarrow> FileState \<Rightarrow> Program \<Rightarrow>
   FileState" where
  "processProgram getTime parsedLogs meta st program =
     (let matchingEntries = matchingEntriesOf parsedLogs program in
      if length matchingEntries = 0 then st
      else
        (let broadcastSegments = buildSegments getTime matchingEntries;
             (day, db) = findOrCreateDay (store st) (progId program) (date meta);
             st1 = st\<lparr> store := db,
                       daysNeedingLogFiles := setAdd (daysNeedingLogFiles st) (dayId day) \<rparr>
         in foldl (processSegment getTime parsedLogs program meta day) st1 broadcastSegments))"

definition mainRegions :: "Region list" where
  "mainRegions = [SYD, MEL, BNE, PER, ADL]"

text \<open>
  The LogFile block. Both branches of the loop body end in \<open>break\<close>, so only the
  first tracked day is looked at.
\<close>

definition recordLogFile :: "string \<Rightarrow> FileMetadata \<Rightarrow> FileState \<Rightarrow> Store" where
  "recordLogFile key meta st =
     (if region meta \<in> set mainRegions \<and> length (daysNeedingLogFiles st) > 0 then
        (case daysNeedingLogFiles st of
           [] \<Rightarrow> store st
         | did # _ \<Rightarrow>
             (case find (\<lambda>l. s3_key l = key) (logFiles (store st)) of
                None \<Rightarrow>
                  (store st)\<lparr> logFiles := logFiles (store st) @
                     [\<lparr> s3_key = key, lfDayId = did, lfRegion = region meta,
                         lfChannel = channel meta \<rparr>] \<rparr>
              | Some existingLogFile \<Rightarrow> store st))
      else store st)"

text \<open>
  One round of \<open>for (const record of event.Records)\<close>, for the decoded object key
  \<open>key\<close> whose content in the bucket is \<open>logFileContent\<close>. The state is the store
  and the \<open>results\<close> array of the whole invocation. \<open>processParsed\<close> is the part
  of the round after \<open>parseLogs\<close> has returned.
\<close>

definition processParsed ::
  "(string \<Rightarrow> int option) \<Rightarrow> Program list \<Rightarrow> Store \<times> (string \<times> int \<times> int) list \<Rightarrow>
   string \<Rightarrow> FileMetadata \<Rightarrow> ParsedLogData \<Rightarrow> Store \<times> (string \<times> int \<times> int) list" where
  "processParsed getTime progs state key meta parsedLogs =
     (let st = foldl (processProgram getTime parsedLogs meta)
                 \<lparr> store = fst state, daysNeedingLogFiles = [], results = snd state \<rparr> progs
      in (recordLogFile key meta st, results st))"

definition processRecord ::
  "tzdb \<Rightarrow> (string \<Rightarrow> int option) \<Rightarrow> Program list \<Rightarrow> Store \<times> (string \<times> int \<times> int) list \<Rightarrow>
   string \<times> string \<Rightarrow> Store \<times> (string \<times> int \<times> int) list" where
  "processRecord tz getTime progs state rec =
     (let key = fst rec; logFileContent = snd rec in
      case parseLogFileName (last (split (CHR ''/'') key)) of
        None \<Rightarrow> state
      | Some meta \<Rightarrow>
          processParsed getTime progs state key meta
            (parseLogs tz logFileContent (regionName (region meta))))"

definition handler ::
  "tzdb \<Rightarrow> (string \<Rightarrow> int option) \<Rightarrow> Store \<Rightarrow> (string \<times> string) list \<Rightarrow>
   Store \<times> (string \<times> int \<times> int) list" where
  "handler tz getTime db records =
     foldl (processRecord tz getTime (catalog db)) (db, []) records"

section \<open>Notions used in the statements\<close>

subsection \<open>Decoding\<close>

text \<open>The two tests that route an entry into \<open>billboards\<close> or \<open>programs\<close>.\<close>

definition isBillboardEntry :: "entryRef \<Rightarrow> bool" where
  "isBillboardEntry e = truthy (isBillboard (snd e))"

definition isProgramEntry :: "entryRef \<Rightarrow> bool" where
  "isProgramEntry e = (\<not> truthy (isBillboard (snd e)) \<and> isProgramType (snd e))"

text \<open>The entries that the loop creates for the lines from number \<open>n\<close> on.\<close>

fun keptEntries :: "tzdb \<Rightarrow> string \<Rightarrow> string list \<Rightarrow> nat \<Rightarrow> entryRef list" where
  "keptEntries tz rg [] n = []"
| "keptEntries tz rg (l # ls) n =
     (if keptLine l then (n, parseLine tz rg n l) # keptEntries tz rg ls (n + 1)
      else keptEntries tz rg ls (n + 1))"

text \<open>
  The structural checks that \<open>parseLogs\<close> makes on the trimmed timestamp field before
  it assigns anything: the nested \<open>if\<close>s of the timestamp block.
\<close>

definition timestampShape :: "string \<Rightarrow> bool" where
  "timestampShape raw =
     (raw \<noteq> [] \<and> length raw \<ge> 17 \<and> length (split (CHR '' '') raw) \<ge> 2
      \<and> length (split (CHR '' '') raw ! 0) \<ge> 8
      \<and> length (split (CHR '':'') (split (CHR '' '') raw ! 1)) \<ge> 3)"

text \<open>The format \<open>YYYYMMDD HH:MM:SS:FF\<close> as the specification writes it.\<close>

definition isTimestampFormat :: "string \<Rightarrow> bool" where
  "isTimestampFormat raw =
     (length raw = 20 \<and> allDigits (substring raw 0 8) \<and> raw ! 8 = CHR '' ''
      \<and> allDigits (substring raw 9 11) \<and> raw ! 11 = CHR '':''
      \<and> allDigits (substring raw 12 14) \<and> raw ! 14 = CHR '':''
      \<and> allDigits (substring raw 15 17) \<and> raw ! 17 = CHR '':''
      \<and> allDigits (substring raw 18 20))"

subsection \<open>Segments\<close>

text \<open>
  The gap rule in the specification's words: both timestamps are present and readable
  and the second is more than thirty minutes after the first.
\<close>

definition gapOver30 :: "(string \<Rightarrow> int option) \<Rightarrow> LogEntry \<Rightarrow> LogEntry \<Rightarrow> bool" where
  "gapOver30 getTime a b =
     (case (entryDate getTime a, entryDate getTime b) of
        (Some (Some x), Some (Some y)) \<Rightarrow> y - x > 30 * 60 * 1000
      | _ \<Rightarrow> False)"

text \<open>
  Entry \<open>i\<close> closes a segment when it is the final entry or the gap to entry
  \<open>i + 1\<close> is over the limit. A segment runs from the entry after the previous
  closing entry (or from the first entry) to the next closing entry.
\<close>

definition closesAt :: "(string \<Rightarrow> int option) \<Rightarrow> entryRef list \<Rightarrow> nat \<Rightarrow> bool" where
  "closesAt getTime xs i =
     (Suc i = length xs \<or> (Suc i < length xs \<and> gapOver30 getTime (snd (xs ! i)) (snd (xs ! Suc i))))"

definition segmentEnds :: "(string \<Rightarrow> int option) \<Rightarrow> entryRef list \<Rightarrow> nat list" where
  "segmentEnds getTime xs = filter (closesAt getTime xs) [0..<length xs]"

definition segmentBounds :: "(string \<Rightarrow> int option) \<Rightarrow> entryRef list \<Rightarrow> (nat \<times> nat) list" where
  "segmentBounds getTime xs = zip (0 # map Suc (segmentEnds getTime xs)) (segmentEnds getTime xs)"

definition segmentOf :: "entryRef list \<Rightarrow> nat \<times> nat \<Rightarrow> BroadcastSegment" where
  "segmentOf xs b = \<lparr> startEntry = xs ! fst b, endEntry = xs ! snd b \<rparr>"

text \<open>
  The entries of a segment \<open>{startEntry, endEntry}\<close>: those of the matched list whose
  line number lies between the two.
\<close>

definition segmentEntries :: "entryRef list \<Rightarrow> BroadcastSegment \<Rightarrow> entryRef list" where
  "segmentEntries xs seg =
     filter (\<lambda>e. lineNumber (snd (startEntry seg)) \<le> lineNumber (snd e)
                \<and> lineNumber (snd e) \<le> lineNumber (snd (endEntry seg))) xs"

subsection \<open>End-time resolution\<close>

text \<open>
  The end time in the specification's words: the first program-type entry past the end
  entry whose title does not match and whose \<open>dateTime\<close> is not \<open>null\<close> gives
  the end time; without such an entry, or when its timestamp does not read as a date,
  the end is two hours after the start.
\<close>

definition nextDifferingEntry :: "entryRef list \<Rightarrow> string \<Rightarrow> entryRef \<Rightarrow> entryRef option" where
  "nextDifferingEntry entries kw endE =
     find (\<lambda>e. isProgramType (snd e)
                \<and> lineNumber (snd e) > lineNumber (snd endE)
                \<and> \<not> titleMatches (snd e) kw
                \<and> dateTime (snd e) \<noteq> None) entries"

definition endTimeAsSpecified ::
  "(string \<Rightarrow> int option) \<Rightarrow> entryRef list \<Rightarrow> string \<Rightarrow> entryRef \<Rightarrow> int \<Rightarrow> int" where
  "endTimeAsSpecified getTime entries kw endE startT =
     (case nextDifferingEntry entries kw endE of
        None \<Rightarrow> startT + 2 * 60 * 60 * 1000
      | Some e \<Rightarrow>
          (case dateTime (snd e) of
             None \<Rightarrow> startT + 2 * 60 * 60 * 1000
           | Some s \<Rightarrow>
               (case getTime s of None \<Rightarrow> startT + 2 * 60 * 60 * 1000 | Some t \<Rightarrow> t)))"

subsection \<open>Billboard association\<close>

text \<open>
  Seconds since midnight of an entry (\<open>NaN\<close> without a usable \<open>time\<close>), the
  program-type entry that bounds a program's window, the billboards inside the
  window, and the result: the windows of the matching programs one after the other,
  each object kept where it first occurs.
\<close>

definition secondsOf :: "entryRef \<Rightarrow> int option" where
  "secondsOf e = (case time (snd e) of None \<Rightarrow> None | Some t \<Rightarrow> timeSeconds t)"

definition hasTime :: "entryRef \<Rightarrow> bool" where
  "hasTime e = truthyStr (time (snd e))"

definition nextProgramWithTime :: "ParsedLogData \<Rightarrow> entryRef \<Rightarrow> entryRef option" where
  "nextProgramWithTime ld p =
     find (\<lambda>e. lineNumber (snd e) > lineNumber (snd p) \<and> isProgramType (snd e) \<and> hasTime e)
       (allEntries ld)"

definition windowBillboards :: "ParsedLogData \<Rightarrow> entryRef \<Rightarrow> entryRef list" where
  "windowBillboards ld p =
     filter (\<lambda>b. case nextProgramWithTime ld p of
                   Some nx \<Rightarrow> numLe (secondsOf p) (secondsOf b) \<and> numLt (secondsOf b) (secondsOf nx)
                 | None \<Rightarrow> numLe (secondsOf p) (secondsOf b))
       (billboards ld)"

fun dedupByRef :: "entryRef list \<Rightarrow> entryRef list" where
  "dedupByRef [] = []"
| "dedupByRef (x # xs) = x # dedupByRef (filter (\<lambda>y. fst y \<noteq> fst x) xs)"

definition associatedBillboards :: "ParsedLogData \<Rightarrow> string \<Rightarrow> entryRef list" where
  "associatedBillboards ld kw =
     dedupByRef (concat (map (windowBillboards ld)
                           (filter (\<lambda>p. titleMatches (snd p) kw) (programs ld))))"

text \<open>
  The same with the window bounded as the specification words it: by the next
  program-type entry after the program, whether or not that entry has a time.
\<close>

definition nextProgramEntry :: "ParsedLogData \<Rightarrow> entryRef \<Rightarrow> entryRef option" where
  "nextProgramEntry ld p =
     find (\<lambda>e. lineNumber (snd e) > lineNumber (snd p) \<and> isProgramType (snd e)) (allEntries ld)"

definition windowAsStated :: "ParsedLogData \<Rightarrow> entryRef \<Rightarrow> entryRef list" where
  "windowAsStated ld p =
     filter (\<lambda>b. case nextProgramEntry ld p of
                   Some nx \<Rightarrow> numLe (secondsOf p) (secondsOf b) \<and> numLt (secondsOf b) (secondsOf nx)
                 | None \<Rightarrow> numLe (secondsOf p) (secondsOf b))
       (billboards ld)"

definition billboardsAsStated :: "ParsedLogData \<Rightarrow> string \<Rightarrow> entryRef list" where
  "billboardsAsStated ld kw =
     dedupByRef (concat (map (windowAsStated ld)
                           (filter (\<lambda>p. titleMatches (snd p) kw) (programs ld))))"

text \<open>The effect of one pass of the billboard loop on the result list.\<close>

fun appendNew :: "entryRef list \<Rightarrow> entryRef list \<Rightarrow> entryRef list" where
  "appendNew acc [] = acc"
| "appendNew acc (b # bs) = appendNew (if includesRef acc b then acc else acc @ [b]) bs"

section \<open>Example data\<close>

definition jan4 :: "int \<Rightarrow> int \<Rightarrow> int" where
  "jan4 h m = localMillis 2026 1 4 h m 0"

definition exampleBroadcast :: Broadcast where
  "exampleBroadcast =
     \<lparr> name = ''UNITED CUP DAY 4 (BNE)'', startTime = jan4 10 0, endTime = jan4 11 0,
       status = PENDING, bChannel = CH9, bRegion = BNE, bDayId = 1 \<rparr>"

definition exampleStore :: Store where
  "exampleStore =
     \<lparr> catalog = [], days = [\<lparr> dayId = 1, dayDate = newDateYMD 2026 0 4, dayProgramId = 7 \<rparr>],
       broadcasts = [exampleBroadcast], logFiles = [] \<rparr>"

text \<open>
  A log line of 360 characters with the given timestamp field (from column 55),
  material type (column 188) and database title (from column 295), blank elsewhere.
\<close>

definition logLine :: "string \<Rightarrow> string \<Rightarrow> string \<Rightarrow> string" where
  "logLine stamp mType title =
     replicate 55 (CHR '' '') @ stamp @ replicate (133 - length stamp) (CHR '' '') @ mType
     @ replicate 106 (CHR '' '') @ title @ replicate (65 - length title) (CHR '' '')"

text \<open>A time zone database in which every zone is ten hours ahead of UTC.\<close>

definition tzFixed :: tzdb where
  "tzFixed = (\<lambda>zone local. 600)"

definition lineI :: string where
  "lineI = logLine ''20260104 06:00:00:02'' ''I'' []"

definition badLine :: string where
  "badLine = logLine ''2026AB04 06:00:00:02'' ''M'' ''UNITED CUP DAY 4''"

definition degradedLine :: string where
  "degradedLine = logLine ''20260104'' ''M'' ''NINE NEWS''"

text \<open>Entries built by hand: line number, material type, UTC timestamp, local time, title.\<close>

definition sampleEntry :: "nat \<Rightarrow> string \<Rightarrow> string option \<Rightarrow> string option \<Rightarrow> string \<Rightarrow> entryRef" where
  "sampleEntry n mType utc t title =
     (n - 1,
      \<lparr> lineNumber = n, marketChannel = ''BRI9'', dateTime = utc,
        localDateTime = map_option (\<lambda>x. ''2026-01-04T'' @ x) t, time = t,
        materialKey = [], materialType = mType, databaseTitle = title,
        isBillboard = billboardFlag mType title,
        billboardType = billboardKind (billboardFlag mType title) title, rawLine = title \<rparr>)"

definition e0600 :: entryRef where
  "e0600 = sampleEntry 1 ''M'' (Some ''2026-01-03T20:00:00.000Z'') (Some ''06:00:00'') ''UNITED CUP DAY 4''"

definition e0620 :: entryRef where
  "e0620 = sampleEntry 5 ''M'' (Some ''2026-01-03T20:20:00.000Z'') (Some ''06:20:00'') ''UNITED CUP DAY 4''"

definition e0705 :: entryRef where
  "e0705 = sampleEntry 9 ''S'' (Some ''2026-01-03T21:05:00.000Z'') (Some ''07:05:00'') ''UNITED CUP DAY 4''"

definition eNoTime :: entryRef where
  "eNoTime = sampleEntry 12 ''M'' None None ''UNITED CUP DAY 4''"

definition matched3 :: "entryRef list" where
  "matched3 = [e0600, e0620, e0705]"

definition exampleProgram :: Program where
  "exampleProgram = \<lparr> progId = 7, progName = ''United Cup'', keyword = ''UNITED CUP'', year = 2026 \<rparr>"

definition exampleMeta :: FileMetadata where
  "exampleMeta = \<lparr> date = newDateYMD 2026 0 4, region = BNE, channel = CH9 \<rparr>"

definition exampleDay :: Day where
  "exampleDay = \<lparr> dayId = 1, dayDate = newDateYMD 2026 0 4, dayProgramId = 7 \<rparr>"

definition exampleParsed :: ParsedLogData where
  "exampleParsed = \<lparr> billboards = [], programs = [e0600, e0620, e0705, eNoTime],
                      allEntries = [e0600, e0620, e0705, eNoTime] \<rparr>"

definition exampleState :: FileState where
  "exampleState = \<lparr> store = exampleStore, daysNeedingLogFiles = [1], results = [] \<rparr>"

text \<open>
  The log of the end-to-end scenario: one line of type \<open>M\<close> titled
  \<open>UNITED CUP DAY 4\<close> at local time 06:00:00 on 2026-01-04, and what \<open>parseLogs\<close>
  makes of it when the conversion to UTC gives \<open>utc\<close>.
\<close>

definition unitedLine :: string where
  "unitedLine = logLine ''20260104 06:00:00:02'' ''M'' ''UNITED CUP DAY 4''"

definition unitedEntry :: "string option \<Rightarrow> entryRef" where
  "unitedEntry utc =
     (0, \<lparr> lineNumber = 1, marketChannel = [], dateTime = utc,
           localDateTime = Some ''2026-01-04T06:00:00'', time = Some ''06:00:00'',
           materialKey = [], materialType = ''M'', databaseTitle = ''UNITED CUP DAY 4'',
           isBillboard = JBool False, billboardType = None,
           rawLine = ''20260104 06:00:00:02'' @ replicate 113 (CHR '' '') @ ''M''
                     @ replicate 106 (CHR '' '') @ ''UNITED CUP DAY 4'' \<rparr>)"

definition unitedParsed :: "string option \<Rightarrow> ParsedLogData" where
  "unitedParsed utc =
     \<lparr> billboards = [], programs = [unitedEntry utc], allEntries = [unitedEntry utc] \<rparr>"

definition emptyStore :: "Program list \<Rightarrow> Store" where
  "emptyStore progs = \<lparr> catalog = progs, days = [], broadcasts = [], logFiles = [] \<rparr>"

definition unitedKey :: string where
  "unitedKey = ''logs/20260104_BNE-NINE.LOG''"

definition newsLine :: string where
  "newsLine = logLine ''20260104 07:00:00:00'' ''S'' ''NINE NEWS''"

definition twoLines :: string where
  "twoLines = unitedLine @ [CHR 0x0A] @ newsLine"

definition utc2000 :: "string option" where
  "utc2000 = Some ''2026-01-03T20:00:00.000Z''"

definition freshState :: FileState where
  "freshState = \<lparr> store = emptyStore [exampleProgram], daysNeedingLogFiles = [1], results = [] \<rparr>"

definition otherProgram :: Program where
  "otherProgram = \<lparr> progId = 8, progName = ''Australian Open'', keyword = ''AUSTRALIAN OPEN'', year = 2026 \<rparr>"

definition pNews0700 :: entryRef where
  "pNews0700 = sampleEntry 5 ''M'' (Some ''2026-01-03T21:00:00.000Z'') (Some ''07:00:00'') ''NINE NEWS''"

definition pUntimed :: entryRef where
  "pUntimed = sampleEntry 3 ''M'' None None ''NINE NEWS EARLY''"

definition bb0605 :: entryRef where
  "bb0605 = sampleEntry 2 ''I'' (Some ''2026-01-03T20:05:00.000Z'') (Some ''06:05:00'') ''OB UNITED CUP''"

definition bb0630 :: entryRef where
  "bb0630 = sampleEntry 4 ''I'' (Some ''2026-01-03T20:30:00.000Z'') (Some ''06:30:00'') ''MB UNITED CUP''"

definition bb0710 :: entryRef where
  "bb0710 = sampleEntry 6 ''I'' (Some ''2026-01-03T21:10:00.000Z'') (Some ''07:10:00'') ''CB UNITED CUP''"

definition ldWindow :: ParsedLogData where
  "ldWindow = \<lparr> billboards = [bb0605, bb0710], programs = [e0600, pNews0700],
                 allEntries = [e0600, bb0605, pNews0700, bb0710] \<rparr>"

definition ldUntimed :: ParsedLogData where
  "ldUntimed = \<lparr> billboards = [bb0630, bb0710], programs = [e0600, pUntimed, pNews0700],
                  allEntries = [e0600, pUntimed, bb0630, pNews0700, bb0710] \<rparr>"

definition pNews0900 :: entryRef where
  "pNews0900 = sampleEntry 2 ''M'' (Some ''2026-01-03T23:00:00.000Z'') (Some ''09:00:00'') ''NINE NEWS''"

definition pUnited0700 :: entryRef where
  "pUnited0700 = sampleEntry 3 ''S'' (Some ''2026-01-03T21:00:00.000Z'') (Some ''07:00:00'') ''UNITED CUP DAY 4''"

definition bb0800 :: entryRef where
  "bb0800 = sampleEntry 4 ''I'' (Some ''2026-01-03T22:00:00.000Z'') (Some ''08:00:00'') ''MB UNITED CUP''"

definition bbTwin :: entryRef where
  "bbTwin = (7, snd bb0800)"

definition ldOverlap :: ParsedLogData where
  "ldOverlap = \<lparr> billboards = [bb0800, bbTwin], programs = [e0600, pNews0900, pUnited0700],
                  allEntries = [e0600, pNews0900, pUnited0700, bb0800, bbTwin] \<rparr>"

definition pNews0600 :: entryRef where
  "pNews0600 = sampleEntry 2 ''M'' (Some ''2026-01-03T20:00:00.000Z'') (Some ''06:00:00'') ''NINE NEWS''"

definition newsEntry :: entryRef where
  "newsEntry =
     (1, \<lparr> lineNumber = 2, marketChannel = [],
           dateTime = Some ''2026-01-03T21:00:00.000Z'',
           localDateTime = Some ''2026-01-04T07:00:00'', time = Some ''07:00:00'',
           materialKey = [], materialType = ''S'', databaseTitle = ''NINE NEWS'',
           isBillboard = JBool False, billboardType = None,
           rawLine = ''20260104 07:00:00:00'' @ replicate 113 (CHR '' '') @ ''S''
                     @ replicate 106 (CHR '' '') @ ''NINE NEWS'' \<rparr>)"

definition eNull0630 :: entryRef where
  "eNull0630 = sampleEntry 7 ''M'' None None ''UNITED CUP DAY 4''"

definition matchedNull :: "entryRef list" where
  "matchedNull = [e0600, eNull0630, e0705]"

section \<open>Properties\<close>

subsection \<open>Evaluated examples\<close>

lemma unitedLine_parsed:
  "parseLogs tz unitedLine ''BNE''
   = unitedParsed (Some (toISO (1767506400000 - tz ''Australia/Brisbane'' 1767506400000 * 60 * 1000)))"
  by code_simp

lemma unitedKey_meta: "parseLogFileName (last (split (CHR ''/'') unitedKey)) = Some exampleMeta"
  by code_simp

lemma brisbane_values:
  "localMillis 2026 1 4 6 0 0 = 1767506400000"
  "toISO 1767470400000 = ''2026-01-03T20:00:00.000Z''"
  by code_simp+

lemma unitedLine_fixed: "parseLogs tzFixed unitedLine ''BNE'' = unitedParsed utc2000"
  by (simp add: unitedLine_parsed tzFixed_def brisbane_values utc2000_def)

lemma united_matches:
  "matchingEntriesOf (unitedParsed utc2000) exampleProgram \<noteq> []"
  "matchingEntriesOf (unitedParsed utc2000) otherProgram = []"
  by code_simp+

subsection \<open>The overlap query\<close>

lemma jan4_values:
  "jan4 9 30 = 1767519000000" "jan4 10 0 = 1767520800000" "jan4 10 30 = 1767522600000"
  "jan4 10 45 = 1767523500000" "jan4 11 0 = 1767524400000" "jan4 11 30 = 1767526200000"
  "jan4 12 0 = 1767528000000"
  by (simp_all add: jan4_def localMillis_def daysFromCivil_def)

text \<open>
  C2, counterexample. Against the existing broadcast from 10:00 to 11:00, the empty
  candidate from 10:00 to 10:00 (a segment whose next differing program entry carries
  the start entry's own timestamp) satisfies the first alternative of the query, while
  the half-open test \<open>NOT (new.end <= existing.start OR new.start >= existing.end)\<close>
  is false for it.
\<close>

theorem overlapCondition_empty_candidate:
  "overlapCondition exampleBroadcast (jan4 10 0) (jan4 10 0)
   \<and> (jan4 10 0 \<le> startTime exampleBroadcast \<or> jan4 10 0 \<ge> endTime exampleBroadcast)"
  by (simp add: overlapCondition_def exampleBroadcast_def jan4_values)

text \<open>
  The handler does build such candidates: when the next differing program entry
  carries the timestamp of the start entry, the resolved end time is the start time.
\<close>

lemma empty_candidate_reachable:
  "entryDate dateGetTime (snd e0600) = Some (Some 1767470400000)
   \<and> resolveEndTime dateGetTime [e0600, pNews0600] ''UNITED CUP'' e0600 1767470400000
       = 1767470400000"
  by code_simp

text \<open>
  C2, as amended. The half-open test always implies the three-alternative condition of
  the query, and the two agree whenever both intervals are non-empty (start before
  end). Against the existing broadcast from 10:00 to 11:00 the query finds it for the
  candidates 10:30 to 10:45, 09:30 to 10:30 and 10:45 to 11:30, and finds nothing for
  11:00 to 12:00.
\<close>

theorem overlapCondition_half_open:
  "(\<not> (newEnd \<le> startTime b \<or> newStart \<ge> endTime b) \<longrightarrow> overlapCondition b newStart newEnd)
   \<and> (startTime b < endTime b \<and> newStart < newEnd \<longrightarrow>
        overlapCondition b newStart newEnd
        = (\<not> (newEnd \<le> startTime b \<or> newStart \<ge> endTime b)))
   \<and> findOverlappingBroadcast exampleStore 1 CH9 BNE (jan4 10 30) (jan4 10 45)
       = Some exampleBroadcast
   \<and> findOverlappingBroadcast exampleStore 1 CH9 BNE (jan4 9 30) (jan4 10 30)
       = Some exampleBroadcast
   \<and> findOverlappingBroadcast exampleStore 1 CH9 BNE (jan4 10 45) (jan4 11 30)
       = Some exampleBroadcast
   \<and> findOverlappingBroadcast exampleStore 1 CH9 BNE (jan4 11 0) (jan4 12 0) = None"
proof -
  have general: "\<not> (newEnd \<le> startTime b \<or> newStart \<ge> endTime b) \<longrightarrow>
      overlapCondition b newStart newEnd"
    by (auto simp: overlapCondition_def)
  have nonempty: "startTime b < endTime b \<and> newStart < newEnd \<longrightarrow>
      overlapCondition b newStart newEnd
      = (\<not> (newEnd \<le> startTime b \<or> newStart \<ge> endTime b))"
    by (auto simp: overlapCondition_def)
  have examples:
    "findOverlappingBroadcast exampleStore 1 CH9 BNE (jan4 10 30) (jan4 10 45)
       = Some exampleBroadcast"
    "findOverlappingBroadcast exampleStore 1 CH9 BNE (jan4 9 30) (jan4 10 30)
       = Some exampleBroadcast"
    "findOverlappingBroadcast exampleStore 1 CH9 BNE (jan4 10 45) (jan4 11 30)
       = Some exampleBroadcast"
    "findOverlappingBroadcast exampleStore 1 CH9 BNE (jan4 11 0) (jan4 12 0) = None"
    by (simp_all add: findOverlappingBroadcast_def exampleStore_def overlapCondition_def
        exampleBroadcast_def jan4_values)
  from general nonempty examples show ?thesis by blast
qed

theorem overlapCondition_half_open_witness:
  "startTime exampleBroadcast < endTime exampleBroadcast \<and> jan4 10 30 < jan4 10 45
   \<and> \<not> (jan4 10 45 \<le> startTime exampleBroadcast \<or> jan4 10 30 \<ge> endTime exampleBroadcast)
   \<and> overlapCondition exampleBroadcast (jan4 10 30) (jan4 10 45)"
  using overlapCondition_half_open [of "jan4 10 45" exampleBroadcast "jan4 10 30"]
  by (simp add: exampleBroadcast_def jan4_values)

subsection \<open>Time zone resolution\<close>

lemma getTimezoneForRegion_known:
  "getTimezoneForRegion ''SYD'' = ZoneName ''Australia/Sydney''"
  "getTimezoneForRegion ''MEL'' = ZoneName ''Australia/Melbourne''"
  "getTimezoneForRegion ''BNE'' = ZoneName ''Australia/Brisbane''"
  "getTimezoneForRegion ''PER'' = ZoneName ''Australia/Perth''"
  "getTimezoneForRegion ''ADL'' = ZoneName ''Australia/Adelaide''"
  by (simp_all add: getTimezoneForRegion_def timezoneMap_def)


text \<open>
  The twelve names that an object literal inherits are not region codes: the handler
  passes \<open>regionName\<close> of one of the five regions, and a caller that omits the argument
  passes \<open>undefined\<close>. Under such a name the lookup finds the inherited member.
\<close>

lemma getTimezoneForRegion_inherited_name:
  "getTimezoneForRegion ''constructor'' = Inherited ''constructor''"
  by (simp add: getTimezoneForRegion_def timezoneMap_def objectPrototypeKeys_def)



subsection \<open>Decoding\<close>

lemma parseLoop_eq:
  "parseLoop tz rg ls n r =
     \<lparr> billboards = billboards r @ filter isBillboardEntry (keptEntries tz rg ls n),
       programs = programs r @ filter isProgramEntry (keptEntries tz rg ls n),
       allEntries = allEntries r @ keptEntries tz rg ls n \<rparr>"
proof (induction ls arbitrary: n r)
  case Nil
  show ?case by simp
next
  case (Cons l ls)
  show ?case
    by (simp add: Cons.IH pushEntry_def Let_def isBillboardEntry_def isProgramEntry_def
        isProgramType_def)
qed

lemma keptEntries_enumerate:
  "keptEntries tz rg ls n =
     map (\<lambda>(k, l). (k, parseLine tz rg k l)) (filter (\<lambda>(k, l). keptLine l) (enumerate n ls))"
  by (induction ls arbitrary: n) simp_all

lemma parseLogs_eq:
  "parseLogs tz content rg =
     (let es = map (\<lambda>(k, l). (k, parseLine tz rg k l))
                 (filter (\<lambda>(k, l). keptLine l) (enumerate 0 (split (CHR 0x0A) content)))
      in \<lparr> billboards = filter isBillboardEntry es, programs = filter isProgramEntry es,
           allEntries = es \<rparr>)"
  by (simp add: parseLogs_def parseLoop_eq keptEntries_enumerate Let_def)

lemma parseLogs_lists:
  "billboards (parseLogs tz content rg) = filter isBillboardEntry (allEntries (parseLogs tz content rg))"
  "programs (parseLogs tz content rg) = filter isProgramEntry (allEntries (parseLogs tz content rg))"
  by (simp_all add: parseLogs_eq Let_def)

lemma allEntries_parseLine:
  assumes "e \<in> set (allEntries (parseLogs tz content rg))"
  shows "\<exists>l. keptLine l \<and> snd e = parseLine tz rg (fst e) l"
  using assms by (auto simp: parseLogs_eq Let_def)

lemma parseLine_fields:
  "isBillboard (parseLine tz rg k l)
     = billboardFlag (materialType (parseLine tz rg k l)) (databaseTitle (parseLine tz rg k l))"
  "lineNumber (parseLine tz rg k l) = k + 1"
  "dateTime (parseLine tz rg k l) = fst (parseTimestamp tz rg (trim (substring l 55 75)))"
  "localDateTime (parseLine tz rg k l) = fst (snd (parseTimestamp tz rg (trim (substring l 55 75))))"
  "time (parseLine tz rg k l) = snd (snd (parseTimestamp tz rg (trim (substring l 55 75))))"
  by (simp_all add: parseLine_def Let_def split: prod.splits)

text \<open>
  C10. For every entry that decoding produces, \<open>isBillboard\<close> is the boolean
  \<open>false\<close> when the material type is not \<open>I\<close>; for a type \<open>I\<close> line whose
  trimmed title is empty it is the empty string (falsy, not a boolean), and the entry is
  in neither \<open>billboards\<close> nor \<open>programs\<close>: it appears in \<open>allEntries\<close> only.
\<close>

theorem isBillboard_not_boolean:
  "\<forall>e \<in> set (allEntries (parseLogs tz content rg)).
     (materialType (snd e) \<noteq> ''I'' \<longrightarrow> isBillboard (snd e) = JBool False)
     \<and> (materialType (snd e) = ''I'' \<and> databaseTitle (snd e) = [] \<longrightarrow>
          isBillboard (snd e) = JStr []
          \<and> e \<notin> set (billboards (parseLogs tz content rg))
          \<and> e \<notin> set (programs (parseLogs tz content rg)))"
proof
  fix e
  assume e: "e \<in> set (allEntries (parseLogs tz content rg))"
  then obtain l where l: "snd e = parseLine tz rg (fst e) l"
    using allEntries_parseLine by blast
  have flag: "isBillboard (snd e) = billboardFlag (materialType (snd e)) (databaseTitle (snd e))"
    unfolding l by (rule parseLine_fields(1))
  have notI: "materialType (snd e) \<noteq> ''I'' \<longrightarrow> isBillboard (snd e) = JBool False"
    by (simp add: flag billboardFlag_def)
  have blank: "materialType (snd e) = ''I'' \<and> databaseTitle (snd e) = [] \<longrightarrow>
      isBillboard (snd e) = JStr []
      \<and> e \<notin> set (billboards (parseLogs tz content rg))
      \<and> e \<notin> set (programs (parseLogs tz content rg))"
    by (simp add: flag billboardFlag_def parseLogs_lists isBillboardEntry_def isProgramEntry_def
        isProgramType_def)
  from notI blank
  show "(materialType (snd e) \<noteq> ''I'' \<longrightarrow> isBillboard (snd e) = JBool False)
     \<and> (materialType (snd e) = ''I'' \<and> databaseTitle (snd e) = [] \<longrightarrow>
          isBillboard (snd e) = JStr []
          \<and> e \<notin> set (billboards (parseLogs tz content rg))
          \<and> e \<notin> set (programs (parseLogs tz content rg)))"
    by blast
qed

lemma parseLogs_lineI:
  "(\<lambda>pl. (map (\<lambda>e. (fst e, materialType (snd e), databaseTitle (snd e), isBillboard (snd e)))
            (allEntries pl), billboards pl, programs pl)) (parseLogs tzFixed lineI ''BNE'')
   = ([(0, ''I'', [], JStr [])], [], [])"
  by code_simp

theorem isBillboard_not_boolean_witness:
  "(\<exists>e \<in> set (allEntries (parseLogs tzFixed lineI ''BNE'')).
      materialType (snd e) = ''I'' \<and> databaseTitle (snd e) = [] \<and> isBillboard (snd e) = JStr [])
   \<and> billboards (parseLogs tzFixed lineI ''BNE'') = []
   \<and> programs (parseLogs tzFixed lineI ''BNE'') = []
   \<and> unitedEntry utc2000 \<in> set (allEntries (parseLogs tzFixed unitedLine ''BNE''))
   \<and> materialType (snd (unitedEntry utc2000)) \<noteq> ''I''
   \<and> isBillboard (snd (unitedEntry utc2000)) = JBool False"
proof -
  from parseLogs_lineI obtain e where e: "allEntries (parseLogs tzFixed lineI ''BNE'') = [e]"
    and f: "materialType (snd e) = ''I''" "databaseTitle (snd e) = []"
    and none: "billboards (parseLogs tzFixed lineI ''BNE'') = []"
      "programs (parseLogs tzFixed lineI ''BNE'') = []"
    by auto
  have "e \<in> set (allEntries (parseLogs tzFixed lineI ''BNE''))" by (simp add: e)
  with isBillboard_not_boolean [of tzFixed lineI "''BNE''"] f
  have blank: "isBillboard (snd e) = JStr []" by blast
  have u: "unitedEntry utc2000 \<in> set (allEntries (parseLogs tzFixed unitedLine ''BNE''))"
    by (simp add: unitedLine_fixed unitedParsed_def)
  have m: "materialType (snd (unitedEntry utc2000)) \<noteq> ''I''"
    by (simp add: unitedEntry_def)
  from isBillboard_not_boolean [of tzFixed unitedLine "''BNE''"] u m
  have "isBillboard (snd (unitedEntry utc2000)) = JBool False" by blast
  with e f none blank u m show ?thesis by auto
qed

lemma parseTimestamp_noShape:
  "\<not> timestampShape raw \<Longrightarrow> parseTimestamp tz rg raw = (None, None, None)"
  by (auto simp: timestampShape_def parseTimestamp_def Let_def)

lemma enumerate_fst_sorted: "sorted_wrt (<) (map fst (enumerate n ls))"
  unfolding map_fst_enumerate by (rule sorted_wrt_upt)

lemma sorted_wrt_filter_map:
  "sorted_wrt (<) (map f xs) \<Longrightarrow> sorted_wrt (<) (map f (filter P xs))"
  by (induction xs) auto

lemma parseLogs_lineNumbers:
  "sorted_wrt (<) (map (\<lambda>e. lineNumber (snd e)) (allEntries (parseLogs tz content rg)))"
proof -
  let ?ls = "split (CHR 0x0A) content"
  let ?kept = "filter (\<lambda>(k, l). keptLine l) (enumerate 0 ?ls)"
  have "map (\<lambda>e. lineNumber (snd e)) (allEntries (parseLogs tz content rg))
        = map (\<lambda>p. Suc (fst p)) ?kept"
    by (simp add: parseLogs_eq Let_def parseLine_fields(2) case_prod_unfold)
  moreover have "sorted_wrt (<) (map fst ?kept)"
    by (rule sorted_wrt_filter_map) (rule enumerate_fst_sorted)
  then have "sorted_wrt (<) (map (\<lambda>p. Suc (fst p)) ?kept)"
    by (simp add: sorted_wrt_map)
  ultimately show ?thesis by simp
qed

text \<open>
  C7, as amended. Every kept line (non-blank, at least 360 characters) yields exactly
  one entry in \<open>allEntries\<close>, whatever its timestamp field holds, so no line stops the
  decoding of the others; \<open>billboards\<close> and \<open>programs\<close> are sublists of
  \<open>allEntries\<close>, and line numbers increase strictly along \<open>allEntries\<close>. An entry
  whose trimmed timestamp field fails the decoder's structural checks has
  \<open>dateTime\<close>, \<open>localDateTime\<close> and \<open>time\<close> all \<open>null\<close>.
\<close>

theorem decoding_keeps_degraded_entries:
  "allEntries (parseLogs tz content rg)
     = map (\<lambda>(k, l). (k, parseLine tz rg k l))
         (filter (\<lambda>(k, l). keptLine l) (enumerate 0 (split (CHR 0x0A) content)))
   \<and> billboards (parseLogs tz content rg)
       = filter isBillboardEntry (allEntries (parseLogs tz content rg))
   \<and> programs (parseLogs tz content rg)
       = filter isProgramEntry (allEntries (parseLogs tz content rg))
   \<and> sorted_wrt (<) (map (\<lambda>e. lineNumber (snd e)) (allEntries (parseLogs tz content rg)))
   \<and> (\<forall>k l. lineNumber (parseLine tz rg k l) = k + 1
          \<and> (\<not> timestampShape (trim (substring l 55 75)) \<longrightarrow>
               dateTime (parseLine tz rg k l) = None
               \<and> localDateTime (parseLine tz rg k l) = None
               \<and> time (parseLine tz rg k l) = None))"
proof -
  have entries: "allEntries (parseLogs tz content rg)
     = map (\<lambda>(k, l). (k, parseLine tz rg k l))
         (filter (\<lambda>(k, l). keptLine l) (enumerate 0 (split (CHR 0x0A) content)))"
    by (simp add: parseLogs_eq Let_def)
  have degraded: "\<forall>k l. lineNumber (parseLine tz rg k l) = k + 1
          \<and> (\<not> timestampShape (trim (substring l 55 75)) \<longrightarrow>
               dateTime (parseLine tz rg k l) = None
               \<and> localDateTime (parseLine tz rg k l) = None
               \<and> time (parseLine tz rg k l) = None)"
    by (simp add: parseLine_fields parseTimestamp_noShape)
  from entries parseLogs_lists [of tz content rg] parseLogs_lineNumbers [of tz content rg] degraded
  show ?thesis by blast
qed

lemma degradedLine_facts:
  "split (CHR 0x0A) degradedLine = [degradedLine]"
  "keptLine degradedLine"
  "\<not> timestampShape (trim (substring degradedLine 55 75))"
  by code_simp+

theorem decoding_keeps_degraded_entries_witness:
  "\<not> timestampShape (trim (substring degradedLine 55 75))
   \<and> map (\<lambda>e. (lineNumber (snd e), dateTime (snd e), localDateTime (snd e), time (snd e)))
        (allEntries (parseLogs tzFixed degradedLine ''BNE'')) = [(1, None, None, None)]"
  using decoding_keeps_degraded_entries [of tzFixed degradedLine "''BNE''"]
  by (simp add: degradedLine_facts)

text \<open>
  C7, counterexample. The timestamp field \<open>2026AB04 06:00:00:02\<close> does not parse
  as \<open>YYYYMMDD HH:MM:SS:FF\<close>, and \<open>dateTime\<close> is \<open>null\<close>, but the entry keeps
  \<open>localDateTime\<close> and \<open>time\<close>: they are assigned from the raw text before the
  conversion to UTC fails.
\<close>

theorem malformed_timestamp_keeps_local_time:
  "keptLine badLine
   \<and> \<not> isTimestampFormat (trim (substring badLine 55 75))
   \<and> map (\<lambda>e. (dateTime (snd e), localDateTime (snd e), time (snd e)))
        (allEntries (parseLogs tzFixed badLine ''BNE''))
      = [(None, Some ''2026-AB-04T06:00:00'', Some ''06:00:00'')]"
  by code_simp

subsection \<open>Segment building\<close>

lemma gapExceeds_iff: "gapExceeds getTime a b = gapOver30 getTime a b"
proof -
  have "\<And>x y :: int. (30 < (rat_of_int y - rat_of_int x) / 60000) = (1800000 < y - x)"
  proof -
    fix x y :: int
    have "(30 < (rat_of_int y - rat_of_int x) / 60000) = (30 * 60000 < rat_of_int (y - x))"
      by (simp add: pos_less_divide_eq)
    also have "\<dots> = (rat_of_int 1800000 < rat_of_int (y - x))" by simp
    also have "\<dots> = (1800000 < y - x)" by (simp only: of_int_less_iff)
    finally show "(30 < (rat_of_int y - rat_of_int x) / 60000) = (1800000 < y - x)" .
  qed
  then show ?thesis
    by (simp add: gapExceeds_def gapOver30_def MAX_GAP_MINUTES_def split: option.splits)
qed

lemma segmentLoop_eq:
  "segmentLoop getTime xs i c acc =
     acc @ map (segmentOf xs)
             (zip (c # map Suc (filter (closesAt getTime xs) [i..<length xs]))
                  (filter (closesAt getTime xs) [i..<length xs]))"
proof (induction getTime xs i c acc rule: segmentLoop.induct)
  case (1 getTime xs i c acc)
  show ?case
  proof (cases "i < length xs")
    case False
    then show ?thesis by (subst segmentLoop.simps) simp
  next
    case True
    then have upt: "[i..<length xs] = i # [Suc i..<length xs]"
      by (simp add: upt_conv_Cons)
    show ?thesis
    proof (cases "Suc i < length xs")
      case False
      with True have last: "Suc i = length xs" by simp
      then have c: "closesAt getTime xs i" by (simp add: closesAt_def)
      from last have rest: "[Suc i..<length xs] = []" by simp
      have "segmentLoop getTime xs i c acc =
              segmentLoop getTime xs (i + 1) c
                (acc @ [\<lparr> startEntry = xs ! c, endEntry = xs ! i \<rparr>])"
        using True False by (subst segmentLoop.simps) (simp add: Let_def)
      also have "\<dots> = (acc @ [\<lparr> startEntry = xs ! c, endEntry = xs ! i \<rparr>])"
        using last by (subst segmentLoop.simps) simp
      finally show ?thesis
        by (simp add: upt rest c segmentOf_def)
    next
      case more: True
      show ?thesis
      proof (cases "gapExceeds getTime (snd (xs ! i)) (snd (xs ! (i + 1)))")
        case gap: True
        then have c: "closesAt getTime xs i"
          using more by (simp add: closesAt_def gapExceeds_iff)
        have "segmentLoop getTime xs i c acc =
                segmentLoop getTime xs (i + 1) (i + 1)
                  (acc @ [\<lparr> startEntry = xs ! c, endEntry = xs ! i \<rparr>])"
          using True more gap by (subst segmentLoop.simps) (simp add: Let_def)
        also note "1.IH"(2) [OF True refl _ gap]
        finally show ?thesis
          using more by (simp add: upt c segmentOf_def)
      next
        case nogap: False
        then have c: "\<not> closesAt getTime xs i"
          using more by (simp add: closesAt_def gapExceeds_iff)
        have "segmentLoop getTime xs i c acc = segmentLoop getTime xs (i + 1) c acc"
          using True more nogap by (subst segmentLoop.simps) (simp add: Let_def)
        also note "1.IH"(3) [OF True refl _ nogap]
        finally show ?thesis
          using more by (simp add: upt c)
      qed
    qed
  qed
qed

lemma buildSegments_eq:
  "buildSegments getTime xs = map (segmentOf xs) (segmentBounds getTime xs)"
  by (simp add: buildSegments_def segmentLoop_eq segmentBounds_def segmentEnds_def)

lemma bounds_members:
  assumes "sorted_wrt (<) es" and "\<forall>e \<in> set es. c \<le> e"
  shows "\<forall>(s, e) \<in> set (zip (c # map Suc es) es). c \<le> s \<and> s \<le> e \<and> e \<in> set es"
  using assms
proof (induction es arbitrary: c)
  case Nil
  show ?case by simp
next
  case (Cons e es)
  have "\<forall>(s, e') \<in> set (zip (Suc e # map Suc es) es). Suc e \<le> s \<and> s \<le> e' \<and> e' \<in> set es"
    using Cons.prems by (intro Cons.IH) auto
  with Cons.prems show ?case by auto
qed

lemma bounds_starts_sorted:
  assumes "sorted_wrt (<) es" and "\<forall>e \<in> set es. c \<le> e"
  shows "sorted_wrt (<) (map fst (zip (c # map Suc es) es))"
  using assms
proof (induction es arbitrary: c)
  case Nil
  show ?case by simp
next
  case (Cons e es)
  have later: "\<forall>(s, e') \<in> set (zip (Suc e # map Suc es) es). Suc e \<le> s \<and> s \<le> e' \<and> e' \<in> set es"
    using Cons.prems by (intro bounds_members) auto
  have "sorted_wrt (<) (map fst (zip (Suc e # map Suc es) es))"
    using Cons.prems by (intro Cons.IH) auto
  with later Cons.prems show ?case by fastforce
qed

lemma bounds_cover:
  assumes "sorted_wrt (<) es" and "\<forall>e \<in> set es. c \<le> e"
    and "es = [] \<longrightarrow> c = n" and "es \<noteq> [] \<longrightarrow> Suc (last es) = n"
  shows "concat (map (\<lambda>(s, e). [s..<Suc e]) (zip (c # map Suc es) es)) = [c..<n]"
  using assms
proof (induction es arbitrary: c)
  case Nil
  then show ?case by simp
next
  case (Cons e es)
  have rest: "concat (map (\<lambda>(s, e). [s..<Suc e]) (zip (Suc e # map Suc es) es)) = [Suc e..<n]"
    using Cons.prems by (intro Cons.IH) auto
  have "c \<le> Suc e" using Cons.prems by simp
  moreover have "Suc e \<le> n"
  proof (cases "es = []")
    case True
    with Cons.prems show ?thesis by simp
  next
    case False
    then have "last es \<in> set es" by simp
    with Cons.prems(1) have "e < last es" by auto
    with Cons.prems(4) False show ?thesis by simp
  qed
  ultimately have "[c..<Suc e] @ [Suc e..<n] = [c..<n]"
    by (metis le_Suc_ex upt_add_eq_append)
  with rest show ?case by simp
qed

lemma segmentEnds_sorted: "sorted_wrt (<) (segmentEnds getTime xs)"
  unfolding segmentEnds_def by (intro sorted_wrt_filter sorted_wrt_upt)

lemma segmentEnds_bound: "e \<in> set (segmentEnds getTime xs) \<Longrightarrow> e < length xs"
  by (simp add: segmentEnds_def)

lemma segmentEnds_last:
  "(segmentEnds getTime xs = [] \<longrightarrow> 0 = length xs)
   \<and> (segmentEnds getTime xs \<noteq> [] \<longrightarrow> Suc (last (segmentEnds getTime xs)) = length xs)"
proof (cases xs rule: rev_cases)
  case Nil
  then show ?thesis by (simp add: segmentEnds_def)
next
  case (snoc ys y)
  then have "closesAt getTime xs (length ys)" by (simp add: closesAt_def)
  then have "segmentEnds getTime xs
             = filter (closesAt getTime xs) [0..<length ys] @ [length ys]"
    by (simp add: segmentEnds_def snoc)
  then show ?thesis by (simp add: snoc)
qed

lemma upt_filter_between:
  assumes "e < n"
  shows "filter (\<lambda>i. s \<le> i \<and> i \<le> e) [0..<n] = [s..<Suc e]"
proof (rule sorted_distinct_set_unique)
  show "sorted (filter (\<lambda>i. s \<le> i \<and> i \<le> e) [0..<n])" by (simp add: sorted_wrt_filter)
  show "distinct (filter (\<lambda>i. s \<le> i \<and> i \<le> e) [0..<n])" by simp
  show "sorted [s..<Suc e]" by (rule sorted_upt)
  show "distinct [s..<Suc e]" by (rule distinct_upt)
  show "set (filter (\<lambda>i. s \<le> i \<and> i \<le> e) [0..<n]) = set [s..<Suc e]"
    using assms by auto
qed

lemma slice_by_key:
  fixes key :: "'a \<Rightarrow> nat"
  assumes sorted: "sorted_wrt (<) (map key xs)" and "s \<le> e" and "e < length xs"
  shows "filter (\<lambda>x. key (xs ! s) \<le> key x \<and> key x \<le> key (xs ! e)) xs = map ((!) xs) [s..<Suc e]"
proof -
  have mono: "\<And>i j. i < length xs \<Longrightarrow> j < length xs \<Longrightarrow> (key (xs ! i) \<le> key (xs ! j)) = (i \<le> j)"
  proof -
    fix i j assume ij: "i < length xs" "j < length xs"
    have lt: "\<And>a b. a < b \<Longrightarrow> b < length xs \<Longrightarrow> key (xs ! a) < key (xs ! b)"
      using sorted by (simp add: sorted_wrt_iff_nth_less)
    show "(key (xs ! i) \<le> key (xs ! j)) = (i \<le> j)"
    proof (cases "i \<le> j")
      case True
      with lt [of i j] ij show ?thesis by (cases "i = j") auto
    next
      case False
      with lt [of j i] ij show ?thesis by auto
    qed
  qed
  have "filter (\<lambda>x. key (xs ! s) \<le> key x \<and> key x \<le> key (xs ! e)) (map ((!) xs) [0..<length xs])
        = map ((!) xs) (filter (\<lambda>i. key (xs ! s) \<le> key (xs ! i) \<and> key (xs ! i) \<le> key (xs ! e))
                          [0..<length xs])"
    by (simp add: filter_map comp_def)
  also have "filter (\<lambda>i. key (xs ! s) \<le> key (xs ! i) \<and> key (xs ! i) \<le> key (xs ! e)) [0..<length xs]
             = filter (\<lambda>i. s \<le> i \<and> i \<le> e) [0..<length xs]"
    using assms(2,3) by (intro filter_cong) (auto simp: mono)
  also have "\<dots> = [s..<Suc e]" using assms(3) by (rule upt_filter_between)
  finally show ?thesis by (simp add: map_nth)
qed

lemma matched3_bounds: "segmentBounds dateGetTime matched3 = [(0, 1), (2, 2)]"
  by code_simp

lemma null_timestamp_no_gap:
  "dateTime a = None \<or> dateTime b = None \<Longrightarrow> \<not> gapOver30 getTime a b"
  by (auto simp: gapOver30_def entryDate_def split: option.splits)

text \<open>
  C1. The loop closes the current segment at entry \<open>i\<close> and opens the next at entry
  \<open>i + 1\<close> exactly when both timestamps are present and the gap exceeds thirty
  minutes, and the final entry closes the last segment: the segments are those of
  \<open>segmentBounds\<close>. In particular no segment ends at a pair with a \<open>null\<close>
  timestamp, and the last entry always ends one. Matching entries at 06:00, 06:20 and
  07:05 (local time, given by their UTC timestamps) yield two segments, split between
  06:20 and 07:05.
\<close>

theorem buildSegments_gap_rule:
  "buildSegments getTime xs = map (segmentOf xs) (segmentBounds getTime xs)
   \<and> (Suc i < length xs
        \<and> (dateTime (snd (xs ! i)) = None \<or> dateTime (snd (xs ! Suc i)) = None)
       \<longrightarrow> i \<notin> set (segmentEnds getTime xs))
   \<and> (xs \<noteq> [] \<longrightarrow> length xs - 1 \<in> set (segmentEnds getTime xs))
   \<and> buildSegments dateGetTime [e0600, e0620, e0705]
       = [\<lparr> startEntry = e0600, endEntry = e0620 \<rparr>, \<lparr> startEntry = e0705, endEntry = e0705 \<rparr>]"
proof -
  have null: "Suc i < length xs
        \<and> (dateTime (snd (xs ! i)) = None \<or> dateTime (snd (xs ! Suc i)) = None)
       \<longrightarrow> i \<notin> set (segmentEnds getTime xs)"
    using null_timestamp_no_gap [of "snd (xs ! i)" "snd (xs ! Suc i)" getTime]
    by (auto simp: segmentEnds_def closesAt_def)
  have final: "xs \<noteq> [] \<longrightarrow> length xs - 1 \<in> set (segmentEnds getTime xs)"
    by (cases xs rule: rev_cases) (auto simp: segmentEnds_def closesAt_def)
  have "buildSegments dateGetTime matched3 = map (segmentOf matched3) [(0, 1), (2, 2)]"
    by (simp only: buildSegments_eq matched3_bounds)
  then have "buildSegments dateGetTime [e0600, e0620, e0705]
       = [\<lparr> startEntry = e0600, endEntry = e0620 \<rparr>, \<lparr> startEntry = e0705, endEntry = e0705 \<rparr>]"
    by (simp add: matched3_def segmentOf_def)
  with buildSegments_eq [of getTime xs] null final show ?thesis by blast
qed

lemma matchedNull_facts:
  "segmentBounds dateGetTime matchedNull = [(0, 2)]"
  "segmentEnds dateGetTime matchedNull = [2]"
  "dateTime (snd (matchedNull ! Suc 0)) = None"
  "gapOver30 dateGetTime (snd e0600) (snd e0705)"
  by code_simp+

theorem buildSegments_gap_rule_witness:
  "Suc 0 < length matchedNull \<and> dateTime (snd (matchedNull ! Suc 0)) = None
   \<and> 0 \<notin> set (segmentEnds dateGetTime matchedNull)
   \<and> matchedNull \<noteq> [] \<and> length matchedNull - 1 \<in> set (segmentEnds dateGetTime matchedNull)
   \<and> gapOver30 dateGetTime (snd e0600) (snd e0705)
   \<and> buildSegments dateGetTime matchedNull = [\<lparr> startEntry = e0600, endEntry = e0705 \<rparr>]"
  using buildSegments_gap_rule [of dateGetTime matchedNull 0]
  by (simp add: matchedNull_facts) (simp add: matchedNull_def segmentOf_def)

lemma segment_bounds_in_range:
  assumes "(s, e) \<in> set (segmentBounds getTime xs)"
  shows "s \<le> e \<and> e < length xs"
proof -
  have "\<forall>(s, e) \<in> set (zip (0 # map Suc (segmentEnds getTime xs)) (segmentEnds getTime xs)).
          0 \<le> s \<and> s \<le> e \<and> e \<in> set (segmentEnds getTime xs)"
    by (intro bounds_members segmentEnds_sorted) simp
  with assms show ?thesis
    by (auto simp: segmentBounds_def dest: segmentEnds_bound)
qed

lemma key_nth_less:
  fixes key :: "'a \<Rightarrow> nat"
  assumes "sorted_wrt (<) (map key xs)" and "i < j" and "j < length xs"
  shows "key (xs ! i) < key (xs ! j)"
  using assms by (simp add: sorted_wrt_iff_nth_less)

text \<open>The matched entries of a decoded file are in line order.\<close>

lemma matchingEntries_line_order:
  "sorted_wrt (<) (map (\<lambda>e. lineNumber (snd e))
     (matchingEntriesOf (parseLogs tz content rg) program))"
  unfolding matchingEntriesOf_def parseLogs_lists(2)
  by (intro sorted_wrt_filter_map parseLogs_lineNumbers)

text \<open>
  C5. For matched entries in line order (with strictly increasing line numbers, as
  the matched entries of a decoded file always are), the segments' start entries have
  strictly increasing line numbers and the segments' entry lists, taken in order, make
  up the matched list again: every entry lies in exactly one segment. A segment whose
  start entry has a \<open>null\<close> or unreadable \<open>dateTime\<close> leaves the state of the
  file as it was: it creates no broadcast.
\<close>

theorem buildSegments_partition:
  assumes "sorted_wrt (<) (map (\<lambda>e. lineNumber (snd e)) xs)"
  shows "sorted_wrt (<) (map (\<lambda>seg. lineNumber (snd (startEntry seg))) (buildSegments getTime xs))
    \<and> concat (map (segmentEntries xs) (buildSegments getTime xs)) = xs
    \<and> (entryDate getTime (snd (startEntry seg)) = None
         \<or> entryDate getTime (snd (startEntry seg)) = Some None
       \<longrightarrow> processSegment getTime parsedLogs program meta day st seg = st)"
proof -
  let ?key = "\<lambda>e :: entryRef. lineNumber (snd e)"
  let ?bs = "segmentBounds getTime xs"
  have range: "\<And>s e. (s, e) \<in> set ?bs \<Longrightarrow> s \<le> e \<and> e < length xs"
    by (rule segment_bounds_in_range)
  have starts: "sorted_wrt (<) (map fst ?bs)"
    unfolding segmentBounds_def by (intro bounds_starts_sorted segmentEnds_sorted) simp
  have "sorted_wrt (\<lambda>a b. ?key (xs ! fst a) < ?key (xs ! fst b)) ?bs"
  proof (rule sorted_wrt_mono_rel [of ?bs "\<lambda>a b. fst a < fst b"])
    fix a b assume "a \<in> set ?bs" "b \<in> set ?bs" "fst a < fst b"
    moreover from \<open>b \<in> set ?bs\<close> have "fst b < length xs"
      using range [of "fst b" "snd b"] by simp
    ultimately show "?key (xs ! fst a) < ?key (xs ! fst b)"
      using assms by (intro key_nth_less [where key = ?key]) auto
  next
    from starts show "sorted_wrt (\<lambda>a b. fst a < fst b) ?bs"
      by (simp add: sorted_wrt_map)
  qed
  then have increasing:
    "sorted_wrt (<) (map (\<lambda>seg. lineNumber (snd (startEntry seg))) (buildSegments getTime xs))"
    by (simp add: buildSegments_eq sorted_wrt_map segmentOf_def)
  have "map (segmentEntries xs) (buildSegments getTime xs)
        = map (\<lambda>(s, e). map ((!) xs) [s..<Suc e]) ?bs"
    unfolding buildSegments_eq map_map
  proof (rule map_cong [OF refl])
    fix b assume "b \<in> set ?bs"
    then have "fst b \<le> snd b \<and> snd b < length xs"
      using range [of "fst b" "snd b"] by simp
    then have "filter (\<lambda>x. ?key (xs ! fst b) \<le> ?key x \<and> ?key x \<le> ?key (xs ! snd b)) xs
               = map ((!) xs) [fst b..<Suc (snd b)]"
      using assms by (intro slice_by_key [where key = ?key]) auto
    then show "(segmentEntries xs \<circ> segmentOf xs) b = (case b of (s, e) \<Rightarrow> map ((!) xs) [s..<Suc e])"
      by (simp add: segmentEntries_def segmentOf_def case_prod_unfold)
  qed
  then have "concat (map (segmentEntries xs) (buildSegments getTime xs))
             = map ((!) xs) (concat (map (\<lambda>(s, e). [s..<Suc e]) ?bs))"
    by (simp add: map_concat case_prod_unfold comp_def)
  also have "concat (map (\<lambda>(s, e). [s..<Suc e]) ?bs) = [0..<length xs]"
    unfolding segmentBounds_def
    using segmentEnds_last [of getTime xs]
    by (intro bounds_cover segmentEnds_sorted) auto
  finally have partition: "concat (map (segmentEntries xs) (buildSegments getTime xs)) = xs"
    by (simp add: map_nth)
  have discarded: "entryDate getTime (snd (startEntry seg)) = None
         \<or> entryDate getTime (snd (startEntry seg)) = Some None
       \<longrightarrow> processSegment getTime parsedLogs program meta day st seg = st"
    by (auto simp: processSegment_def)
  from increasing partition discarded show ?thesis by blast
qed

lemma matched3_sorted:
  "sorted_wrt (<) (map (\<lambda>e. lineNumber (snd e)) matched3)"
  "entryDate dateGetTime (snd eNoTime) = None"
  by code_simp+

theorem buildSegments_partition_witness:
  "sorted_wrt (<) (map (\<lambda>e. lineNumber (snd e)) matched3)
   \<and> concat (map (segmentEntries matched3) (buildSegments dateGetTime matched3)) = matched3
   \<and> entryDate dateGetTime (snd eNoTime) = None
   \<and> processSegment dateGetTime exampleParsed exampleProgram exampleMeta exampleDay exampleState
        \<lparr> startEntry = eNoTime, endEntry = eNoTime \<rparr> = exampleState"
  using buildSegments_partition [OF matched3_sorted(1), of dateGetTime
      "\<lparr> startEntry = eNoTime, endEntry = eNoTime \<rparr>" exampleParsed exampleProgram exampleMeta
      exampleDay exampleState]
  by (simp add: matched3_sorted)

subsection \<open>End to end\<close>

lemma united_processed:
  "processParsed dateGetTime [exampleProgram] (emptyStore [exampleProgram], []) unitedKey exampleMeta
     (unitedParsed (Some ''2026-01-03T20:00:00.000Z''))
   = (\<lparr> catalog = [exampleProgram],
        days = [\<lparr> dayId = 1, dayDate = newDateYMD 2026 0 4, dayProgramId = 7 \<rparr>],
        broadcasts = [\<lparr> name = ''UNITED CUP DAY 4 (BNE)'', startTime = 1767470400000,
                        endTime = 1767470400000 + 2 * 60 * 60 * 1000, status = PENDING,
                        bChannel = CH9, bRegion = BNE, bDayId = 1 \<rparr>],
        logFiles = [\<lparr> s3_key = unitedKey, lfDayId = 1, lfRegion = BNE, lfChannel = CH9 \<rparr>] \<rparr>,
      [(''United Cup'', 1767470400000, 1767470400000 + 2 * 60 * 60 * 1000)])"
  by code_simp

text \<open>
  C6. In a time zone database where Brisbane is ten hours ahead of UTC at local
  2026-01-04 06:00:00, ingesting the file \<open>20260104_BNE-NINE.LOG\<close> with the one
  line above against the catalog program with keyword \<open>UNITED CUP\<close>, into an empty
  store, creates exactly one broadcast: it starts at 2026-01-03T20:00:00Z and ends two
  hours later.
\<close>

theorem united_cup_end_to_end:
  assumes "tz ''Australia/Brisbane'' (localMillis 2026 1 4 6 0 0) = 600"
  shows "handler tz dateGetTime (emptyStore [exampleProgram]) [(unitedKey, unitedLine)]
   = (\<lparr> catalog = [exampleProgram],
        days = [\<lparr> dayId = 1, dayDate = newDateYMD 2026 0 4, dayProgramId = 7 \<rparr>],
        broadcasts = [\<lparr> name = ''UNITED CUP DAY 4 (BNE)'', startTime = 1767470400000,
                        endTime = 1767470400000 + 2 * 60 * 60 * 1000, status = PENDING,
                        bChannel = CH9, bRegion = BNE, bDayId = 1 \<rparr>],
        logFiles = [\<lparr> s3_key = unitedKey, lfDayId = 1, lfRegion = BNE, lfChannel = CH9 \<rparr>] \<rparr>,
      [(''United Cup'', 1767470400000, 1767470400000 + 2 * 60 * 60 * 1000)])
   \<and> toISO 1767470400000 = ''2026-01-03T20:00:00.000Z''
   \<and> getTimezoneForRegion ''BNE'' = ZoneName ''Australia/Brisbane''"
proof -
  from assms have offset: "tz ''Australia/Brisbane'' 1767506400000 = 600"
    by (simp only: brisbane_values)
  have parsed: "parseLogs tz unitedLine ''BNE'' = unitedParsed (Some ''2026-01-03T20:00:00.000Z'')"
    by (simp add: unitedLine_parsed offset brisbane_values)
  have "handler tz dateGetTime (emptyStore [exampleProgram]) [(unitedKey, unitedLine)]
        = processParsed dateGetTime [exampleProgram] (emptyStore [exampleProgram], []) unitedKey
            exampleMeta (unitedParsed (Some ''2026-01-03T20:00:00.000Z''))"
    by (simp add: handler_def processRecord_def unitedKey_meta emptyStore_def exampleMeta_def
        parsed [unfolded emptyStore_def])
  with united_processed brisbane_values(2) getTimezoneForRegion_known(3)
  show ?thesis by simp
qed

theorem united_cup_end_to_end_witness:
  "tzFixed ''Australia/Brisbane'' (localMillis 2026 1 4 6 0 0) = 600
   \<and> map (\<lambda>b. (startTime b, endTime b))
        (broadcasts (fst (handler tzFixed dateGetTime (emptyStore [exampleProgram])
                            [(unitedKey, unitedLine)])))
      = [(1767470400000, 1767477600000)]"
proof -
  have h: "tzFixed ''Australia/Brisbane'' (localMillis 2026 1 4 6 0 0) = 600"
    by (simp add: tzFixed_def)
  from united_cup_end_to_end [of tzFixed, OF h] h show ?thesis by simp
qed

subsection \<open>End-time resolution\<close>

lemma toISO_nonempty: "toISO ms \<noteq> []"
  by (simp add: toISO_def Let_def split: prod.splits)

lemma convertToUTC_nonempty: "convertToUTC tz yyyy mm dd hh mi ss rg \<noteq> Inr (Some [])"
  by (simp add: convertToUTC_def fromObjectToUTCISO_def Let_def toISO_nonempty
      split: zoneValue.splits option.splits)

lemma parseTimestamp_nonempty: "fst (parseTimestamp tz rg raw) \<noteq> Some []"
  using convertToUTC_nonempty [of tz _ _ _ _ _ _ rg]
  by (auto simp: parseTimestamp_def Let_def split: sum.splits)

lemma billboardFlag_truthy: "truthy (billboardFlag mType title) \<Longrightarrow> mType = ''I''"
  by (auto simp: billboardFlag_def split: if_splits)

lemma parsed_entry_facts:
  assumes "e \<in> set (allEntries (parseLogs tz content rg))"
  shows "dateTime (snd e) \<noteq> Some []" and "isProgramEntry e = isProgramType (snd e)"
proof -
  from assms obtain l where l: "snd e = parseLine tz rg (fst e) l"
    using allEntries_parseLine by blast
  show "dateTime (snd e) \<noteq> Some []"
    unfolding l parseLine_fields by (rule parseTimestamp_nonempty)
  have "truthy (isBillboard (snd e)) \<Longrightarrow> materialType (snd e) = ''I''"
    unfolding l parseLine_fields(1) by (rule billboardFlag_truthy)
  then show "isProgramEntry e = isProgramType (snd e)"
    by (auto simp: isProgramEntry_def isProgramType_def)
qed

lemma find_filter: "find P (filter Q xs) = find (\<lambda>x. Q x \<and> P x) xs"
  by (induction xs) auto

lemma nextDifferentProgram_parsed:
  "nextDifferentProgram (programs (parseLogs tz content rg)) kw endE
   = nextDifferingEntry (allEntries (parseLogs tz content rg)) kw endE"
proof -
  let ?all = "allEntries (parseLogs tz content rg)"
  have "nextDifferentProgram (programs (parseLogs tz content rg)) kw endE
        = find (\<lambda>e. isProgramEntry e \<and> lineNumber (snd e) > lineNumber (snd endE)
                      \<and> \<not> titleMatches (snd e) kw \<and> truthyStr (dateTime (snd e))) ?all"
    by (simp add: nextDifferentProgram_def parseLogs_lists(2) find_filter)
  also have "\<dots> = nextDifferingEntry ?all kw endE"
    unfolding nextDifferingEntry_def
  proof (rule find_cong [OF refl])
    fix e assume e: "e \<in> set ?all"
    have "truthyStr (dateTime (snd e)) = (dateTime (snd e) \<noteq> None)"
      using parsed_entry_facts(1) [OF e] by (cases "dateTime (snd e)") auto
    then show "(isProgramEntry e \<and> lineNumber (snd e) > lineNumber (snd endE)
                 \<and> \<not> titleMatches (snd e) kw \<and> truthyStr (dateTime (snd e)))
             = (isProgramType (snd e) \<and> lineNumber (snd e) > lineNumber (snd endE)
                 \<and> \<not> titleMatches (snd e) kw \<and> dateTime (snd e) \<noteq> None)"
      by (simp add: parsed_entry_facts(2) [OF e])
  qed
  finally show ?thesis .
qed

lemma resolveEndTime_parsed:
  "resolveEndTime getTime (programs (parseLogs tz content rg)) kw endE startT
   = endTimeAsSpecified getTime (allEntries (parseLogs tz content rg)) kw endE startT"
proof (cases "nextDifferingEntry (allEntries (parseLogs tz content rg)) kw endE")
  case None
  then show ?thesis
    by (simp add: resolveEndTime_def endTimeAsSpecified_def nextDifferentProgram_parsed
        twoHours_def)
next
  case (Some e)
  then have "e \<in> set (allEntries (parseLogs tz content rg))"
    by (auto simp: nextDifferingEntry_def find_Some_iff)
  then have "dateTime (snd e) \<noteq> Some []" by (rule parsed_entry_facts(1))
  then have "entryDate getTime (snd e)
             = (case dateTime (snd e) of None \<Rightarrow> None | Some s \<Rightarrow> Some (getTime s))"
    by (auto simp: entryDate_def split: option.splits)
  with Some show ?thesis
    by (simp add: resolveEndTime_def endTimeAsSpecified_def nextDifferentProgram_parsed
        twoHours_def split: option.splits)
qed

lemma parseTimestamp_time:
  "fst (parseTimestamp tz rg raw) \<noteq> None \<Longrightarrow> truthyStr (snd (snd (parseTimestamp tz rg raw)))"
  by (auto simp: parseTimestamp_def Let_def split: if_splits sum.splits)

lemma parsed_entry_time:
  assumes "e \<in> set (allEntries (parseLogs tz content rg))" and "dateTime (snd e) \<noteq> None"
  shows "truthyStr (time (snd e))"
proof -
  from assms(1) obtain l where l: "snd e = parseLine tz rg (fst e) l"
    using allEntries_parseLine by blast
  from assms(2) show ?thesis
    unfolding l parseLine_fields by (rule parseTimestamp_time)
qed

text \<open>
  C3. For a segment built from the entries of a decoded file whose start entry has a
  readable \<open>dateTime\<close> (start time \<open>startT\<close>), the handler resolves the end time as
  specified, from the entries that decoding produced, and (unless an overlapping
  broadcast exists) creates the broadcast from \<open>startT\<close> to that end time.
\<close>

theorem segment_end_time:
  assumes "startEntry seg \<in> set (allEntries (parseLogs tz content rg))"
    and "entryDate getTime (snd (startEntry seg)) = Some (Some startT)"
  shows "processSegment getTime (parseLogs tz content rg) program meta day st seg
    = (let endT = endTimeAsSpecified getTime (allEntries (parseLogs tz content rg))
                    (keyword program) (endEntry seg) startT
       in case findOverlappingBroadcast (store st) (dayId day) (channel meta) (region meta)
                 startT endT of
            Some b \<Rightarrow> st
          | None \<Rightarrow>
              st\<lparr> store := (store st)\<lparr> broadcasts := broadcasts (store st) @
                     [\<lparr> name = databaseTitle (snd (startEntry seg)) @ '' ('' @
                                regionName (region meta) @ '')'',
                         startTime = startT, endTime = endT, status = PENDING,
                         bChannel = channel meta, bRegion = region meta,
                         bDayId = dayId day \<rparr>] \<rparr>,
                  results := results st @ [(progName program, startT, endT)] \<rparr>)"
proof -
  from assms(2) have present: "dateTime (snd (startEntry seg)) \<noteq> None"
    and readable: "truthyStr (dateTime (snd (startEntry seg)))"
    by (auto simp: entryDate_def split: option.splits if_splits)
  from assms(1) present have "truthyStr (time (snd (startEntry seg)))"
    by (rule parsed_entry_time)
  with readable assms(2) show ?thesis
    by (simp add: processSegment_def resolveEndTime_parsed Let_def)
qed

lemma twoLines_parsed:
  "parseLogs tzFixed twoLines ''BNE''
   = \<lparr> billboards = [], programs = [unitedEntry utc2000, newsEntry],
       allEntries = [unitedEntry utc2000, newsEntry] \<rparr>"
  by code_simp

lemma twoLines_end:
  "endTimeAsSpecified dateGetTime [unitedEntry utc2000, newsEntry] ''UNITED CUP''
     (unitedEntry utc2000) 1767470400000 = 1767474000000"
  "entryDate dateGetTime (snd (unitedEntry utc2000)) = Some (Some 1767470400000)"
  by code_simp+

theorem segment_end_time_witness:
  "unitedEntry utc2000 \<in> set (allEntries (parseLogs tzFixed twoLines ''BNE''))
   \<and> entryDate dateGetTime (snd (unitedEntry utc2000)) = Some (Some 1767470400000)
   \<and> map (\<lambda>b. (startTime b, endTime b))
        (broadcasts (store (processSegment dateGetTime (parseLogs tzFixed twoLines ''BNE'')
           exampleProgram exampleMeta exampleDay freshState
           \<lparr> startEntry = unitedEntry utc2000, endEntry = unitedEntry utc2000 \<rparr>)))
      = [(1767470400000, 1767474000000)]"
proof -
  have member: "startEntry \<lparr> startEntry = unitedEntry utc2000, endEntry = unitedEntry utc2000 \<rparr>
      \<in> set (allEntries (parseLogs tzFixed twoLines ''BNE''))"
    by (simp add: twoLines_parsed)
  have start: "entryDate dateGetTime
      (snd (startEntry \<lparr> startEntry = unitedEntry utc2000, endEntry = unitedEntry utc2000 \<rparr>))
      = Some (Some 1767470400000)"
    by (simp add: twoLines_end)
  from segment_end_time [OF member start, of exampleProgram exampleMeta exampleDay freshState]
  show ?thesis
    by (simp add: twoLines_parsed twoLines_end exampleProgram_def freshState_def emptyStore_def
        findOverlappingBroadcast_def)
qed

subsection \<open>The LogFile reference\<close>

lemma processSegment_frame:
  "logFiles (store (processSegment getTime pl p m d st seg)) = logFiles (store st)"
  "daysNeedingLogFiles (processSegment getTime pl p m d st seg) = daysNeedingLogFiles st"
  by (auto simp: processSegment_def Let_def split: option.splits)

lemma segments_frame:
  "logFiles (store (foldl (processSegment getTime pl p m d) st segs)) = logFiles (store st)
   \<and> daysNeedingLogFiles (foldl (processSegment getTime pl p m d) st segs) = daysNeedingLogFiles st"
  by (induction segs arbitrary: st) (simp_all add: processSegment_frame)

lemma findOrCreateDay_logFiles:
  "logFiles (snd (findOrCreateDay db pid d)) = logFiles db"
  by (simp add: findOrCreateDay_def createDay_def Let_def split: option.splits)

lemma processProgram_unmatched:
  "matchingEntriesOf pl p = [] \<Longrightarrow> processProgram getTime pl m st p = st"
  by (simp add: processProgram_def)

lemma processProgram_logFiles:
  "logFiles (store (processProgram getTime pl m st p)) = logFiles (store st)"
  by (simp add: processProgram_def Let_def segments_frame findOrCreateDay_logFiles
      split: prod.splits)
    (metis findOrCreateDay_logFiles snd_conv)

lemma processProgram_days:
  "daysNeedingLogFiles st \<noteq> [] \<or> matchingEntriesOf pl p \<noteq> []
   \<Longrightarrow> daysNeedingLogFiles (processProgram getTime pl m st p) \<noteq> []"
  by (auto simp: processProgram_def Let_def segments_frame setAdd_def split: prod.splits)

lemma programs_logFiles:
  "logFiles (store (foldl (processProgram getTime pl m) st progs)) = logFiles (store st)"
  by (induction progs arbitrary: st) (simp_all add: processProgram_logFiles)

lemma programs_unmatched:
  "\<forall>p \<in> set progs. matchingEntriesOf pl p = []
   \<Longrightarrow> foldl (processProgram getTime pl m) st progs = st"
  by (induction progs arbitrary: st) (simp_all add: processProgram_unmatched)

lemma programs_days:
  "daysNeedingLogFiles st \<noteq> [] \<or> (\<exists>p \<in> set progs. matchingEntriesOf pl p \<noteq> [])
   \<Longrightarrow> daysNeedingLogFiles (foldl (processProgram getTime pl m) st progs) \<noteq> []"
proof (induction progs arbitrary: st)
  case Nil
  then show ?case by simp
next
  case (Cons p progs)
  show ?case
  proof (cases "daysNeedingLogFiles st \<noteq> [] \<or> matchingEntriesOf pl p \<noteq> []")
    case True
    then have "daysNeedingLogFiles (processProgram getTime pl m st p) \<noteq> []"
      by (rule processProgram_days)
    then show ?thesis by (simp add: Cons.IH)
  next
    case False
    with Cons.prems have "\<exists>q \<in> set progs. matchingEntriesOf pl q \<noteq> []" by auto
    then show ?thesis by (simp add: Cons.IH)
  qed
qed

lemma region_main: "r \<in> set mainRegions"
  by (cases r) (simp_all add: mainRegions_def)

lemma recordLogFile_cases:
  "logFiles (recordLogFile key m st) = logFiles (store st)
   \<or> (\<exists>lf. logFiles (recordLogFile key m st) = logFiles (store st) @ [lf] \<and> s3_key lf = key
            \<and> (\<forall>l \<in> set (logFiles (store st)). s3_key l \<noteq> key))"
  by (auto simp: recordLogFile_def find_None_iff split: list.splits option.splits)

lemma recordLogFile_idle:
  "daysNeedingLogFiles st = [] \<Longrightarrow> recordLogFile key m st = store st"
  by (simp add: recordLogFile_def)

lemma recordLogFile_marks:
  assumes "daysNeedingLogFiles st \<noteq> []"
  shows "\<exists>lf \<in> set (logFiles (recordLogFile key m st)). s3_key lf = key"
proof (cases "find (\<lambda>l. s3_key l = key) (logFiles (store st))")
  case None
  with assms show ?thesis
    by (auto simp: recordLogFile_def region_main split: list.splits)
next
  case (Some l)
  then have "l \<in> set (logFiles (store st)) \<and> s3_key l = key"
    by (auto simp: find_Some_iff)
  with assms Some show ?thesis
    by (auto simp: recordLogFile_def region_main split: list.splits)
qed

text \<open>
  C8, as amended. For a file whose name resolves to a supported region and channel,
  the round either leaves the LogFile table as it was or adds exactly one reference,
  keyed by the file's \<open>s3_key\<close>, and adds it only when no reference with that key
  exists. When no catalog program matches an entry of the file, the round changes
  nothing at all: no broadcast and no LogFile reference. When some program matches,
  a reference with the file's key exists afterwards.
\<close>

theorem logFile_reference_once:
  assumes "parseLogFileName (last (split (CHR ''/'') key)) = Some meta"
  shows "(logFiles (fst (processRecord tz getTime progs (db, res) (key, content))) = logFiles db
      \<or> (\<exists>lf. logFiles (fst (processRecord tz getTime progs (db, res) (key, content)))
                 = logFiles db @ [lf]
               \<and> s3_key lf = key \<and> (\<forall>l \<in> set (logFiles db). s3_key l \<noteq> key)))
   \<and> ((\<forall>p \<in> set progs.
          matchingEntriesOf (parseLogs tz content (regionName (region meta))) p = [])
        \<longrightarrow> processRecord tz getTime progs (db, res) (key, content) = (db, res))
   \<and> ((\<exists>p \<in> set progs.
          matchingEntriesOf (parseLogs tz content (regionName (region meta))) p \<noteq> [])
        \<longrightarrow> (\<exists>lf \<in> set (logFiles (fst (processRecord tz getTime progs (db, res) (key, content)))).
               s3_key lf = key))"
proof -
  let ?pl = "parseLogs tz content (regionName (region meta))"
  let ?init = "\<lparr> store = db, daysNeedingLogFiles = [], results = res \<rparr>"
  let ?st = "foldl (processProgram getTime ?pl meta) ?init progs"
  have run: "processRecord tz getTime progs (db, res) (key, content)
             = (recordLogFile key meta ?st, results ?st)"
    using assms by (simp add: processRecord_def processParsed_def Let_def)
  have same: "logFiles (store ?st) = logFiles db"
    by (simp add: programs_logFiles)
  have once: "logFiles (recordLogFile key meta ?st) = logFiles db
      \<or> (\<exists>lf. logFiles (recordLogFile key meta ?st) = logFiles db @ [lf]
               \<and> s3_key lf = key \<and> (\<forall>l \<in> set (logFiles db). s3_key l \<noteq> key))"
    using recordLogFile_cases [of key meta ?st] by (simp only: same)
  have unmatched: "(\<forall>p \<in> set progs. matchingEntriesOf ?pl p = [])
        \<longrightarrow> (recordLogFile key meta ?st, results ?st) = (db, res)"
  proof
    assume "\<forall>p \<in> set progs. matchingEntriesOf ?pl p = []"
    then have "?st = ?init" by (rule programs_unmatched)
    then show "(recordLogFile key meta ?st, results ?st) = (db, res)"
      by (simp add: recordLogFile_idle)
  qed
  have matched: "(\<exists>p \<in> set progs. matchingEntriesOf ?pl p \<noteq> [])
        \<longrightarrow> (\<exists>lf \<in> set (logFiles (recordLogFile key meta ?st)). s3_key lf = key)"
  proof
    assume "\<exists>p \<in> set progs. matchingEntriesOf ?pl p \<noteq> []"
    then have "daysNeedingLogFiles ?st \<noteq> []" by (intro programs_days) simp
    then show "\<exists>lf \<in> set (logFiles (recordLogFile key meta ?st)). s3_key lf = key"
      by (rule recordLogFile_marks)
  qed
  from once unmatched matched show ?thesis
    unfolding run fst_conv by blast
qed

theorem logFile_reference_once_witness:
  "parseLogFileName (last (split (CHR ''/'') unitedKey)) = Some exampleMeta
   \<and> matchingEntriesOf (parseLogs tzFixed unitedLine ''BNE'') exampleProgram \<noteq> []
   \<and> (\<exists>lf \<in> set (logFiles (fst (processRecord tzFixed dateGetTime [exampleProgram]
                         (emptyStore [exampleProgram], []) (unitedKey, unitedLine)))).
         s3_key lf = unitedKey)
   \<and> matchingEntriesOf (parseLogs tzFixed unitedLine ''BNE'') otherProgram = []
   \<and> processRecord tzFixed dateGetTime [otherProgram] (emptyStore [otherProgram], [])
        (unitedKey, unitedLine) = (emptyStore [otherProgram], [])"
  using logFile_reference_once [OF unitedKey_meta, of tzFixed dateGetTime "[exampleProgram]"
      "emptyStore [exampleProgram]" "[]" unitedLine]
    logFile_reference_once [OF unitedKey_meta, of tzFixed dateGetTime "[otherProgram]"
      "emptyStore [otherProgram]" "[]" unitedLine]
  by (simp add: unitedKey_meta exampleMeta_def unitedLine_fixed united_matches)

text \<open>
  C8, counterexample. The file of the end-to-end scenario, ingested against a catalog
  whose only program does not match its entry, leaves the store empty: no LogFile
  reference is created, so the file is not marked as processed.
\<close>

theorem unmatched_file_not_marked:
  "parseLogFileName (last (split (CHR ''/'') unitedKey)) = Some exampleMeta
   \<and> matchingEntriesOf (parseLogs tzFixed unitedLine ''BNE'') otherProgram = []
   \<and> handler tzFixed dateGetTime (emptyStore [otherProgram]) [(unitedKey, unitedLine)]
      = (emptyStore [otherProgram], [])
   \<and> logFiles (emptyStore [otherProgram]) = []"
proof -
  have "processParsed dateGetTime [otherProgram] (emptyStore [otherProgram], []) unitedKey
          exampleMeta (unitedParsed utc2000) = (emptyStore [otherProgram], [])"
    by (simp add: processParsed_def processProgram_unmatched united_matches recordLogFile_idle)
  then have "handler tzFixed dateGetTime (emptyStore [otherProgram]) [(unitedKey, unitedLine)]
        = (emptyStore [otherProgram], [])"
    by (simp add: handler_def processRecord_def unitedKey_meta emptyStore_def exampleMeta_def
        unitedLine_fixed)
  then show ?thesis
    by (simp add: unitedKey_meta unitedLine_fixed united_matches emptyStore_def)
qed

subsection \<open>Billboard association\<close>

lemma secondsOf_None: "\<not> hasTime e \<Longrightarrow> secondsOf e = None"
  by (cases "time (snd e)")
    (auto simp: hasTime_def secondsOf_def timeSeconds_def parseIntAt_def parseInt_def Let_def)

lemma nextProgSecondsLoop_find:
  "nextProgSecondsLoop entries (lineNumber (snd p))
   = map_option secondsOf
       (find (\<lambda>e. lineNumber (snd e) > lineNumber (snd p) \<and> isProgramType (snd e) \<and> hasTime e)
          entries)"
  by (induction entries) (auto simp: hasTime_def secondsOf_def split: option.splits)

lemma billboardLoop_appendNew:
  "billboardLoop bbs ps nps acc
   = appendNew acc (filter (\<lambda>b. hasTime b \<and> inWindow ps nps (secondsOf b)) bbs)"
  by (induction bbs arbitrary: acc)
    (auto simp: hasTime_def secondsOf_def split: option.splits)

lemma numLe_None [simp]: "numLe a None = False" "numLe None b = False"
  by (simp_all add: numLe_def split: option.splits)

lemma inWindow_hasTime:
  "inWindow ps nps (secondsOf b) \<Longrightarrow> hasTime b"
  using secondsOf_None [of b] by (cases "hasTime b") (auto simp: inWindow_def split: option.splits)

lemma window_filter:
  assumes "time (snd p) = Some t"
  shows "filter (\<lambda>b. hasTime b
             \<and> inWindow (timeSeconds t) (nextProgSecondsLoop (allEntries ld) (lineNumber (snd p)))
                 (secondsOf b)) (billboards ld)
         = windowBillboards ld p"
proof -
  have p: "secondsOf p = timeSeconds t" using assms by (simp add: secondsOf_def)
  show ?thesis
    unfolding windowBillboards_def nextProgramWithTime_def
    by (rule filter_cong [OF refl])
      (auto simp: nextProgSecondsLoop_find p inWindow_def dest: inWindow_hasTime
        intro: inWindow_hasTime split: option.splits)
qed

lemma window_no_time: "\<not> hasTime p \<Longrightarrow> windowBillboards ld p = []"
  by (auto simp: windowBillboards_def secondsOf_None filter_empty_conv split: option.splits)

lemma appendNew_append: "appendNew acc (xs @ ys) = appendNew (appendNew acc xs) ys"
  by (induction xs arbitrary: acc) simp_all

lemma programInstancesLoop_appendNew:
  "programInstancesLoop ld insts acc = appendNew acc (concat (map (windowBillboards ld) insts))"
proof (induction insts arbitrary: acc)
  case Nil
  show ?case by simp
next
  case (Cons p insts)
  show ?case
  proof (cases "hasTime p")
    case False
    then have "programInstancesLoop ld (p # insts) acc = programInstancesLoop ld insts acc"
      by (auto simp: hasTime_def split: option.splits)
    with False show ?thesis by (simp add: Cons.IH window_no_time)
  next
    case True
    then obtain t where t: "time (snd p) = Some t" "t \<noteq> []"
      by (cases "time (snd p)") (auto simp: hasTime_def)
    then show ?thesis
      by (simp add: Let_def Cons.IH billboardLoop_appendNew window_filter appendNew_append)
  qed
qed

lemma appendNew_dedup:
  "appendNew acc xs = acc @ dedupByRef (filter (\<lambda>x. fst x \<notin> fst ` set acc) xs)"
proof (induction xs arbitrary: acc)
  case Nil
  show ?case by simp
next
  case (Cons b bs)
  show ?case
  proof (cases "includesRef acc b")
    case True
    then show ?thesis by (simp add: Cons.IH includesRef_def)
  next
    case False
    have "filter (\<lambda>x. fst x \<notin> fst ` set (acc @ [b])) bs
          = filter (\<lambda>y. fst y \<noteq> fst b) (filter (\<lambda>x. fst x \<notin> fst ` set acc) bs)"
      by (auto intro: filter_cong)
    with False show ?thesis by (simp add: Cons.IH includesRef_def)
  qed
qed

lemma getBillboardsForProgram_eq:
  "getBillboardsForProgram ld kw = associatedBillboards ld kw"
  by (simp add: getBillboardsForProgram_def associatedBillboards_def Let_def
      programInstancesLoop_appendNew appendNew_dedup)

lemma dedupByRef_subset: "set (dedupByRef xs) \<subseteq> set xs"
  by (induction xs rule: dedupByRef.induct) auto

lemma dedupByRef_distinct: "distinct (map fst (dedupByRef xs))"
proof (induction xs rule: dedupByRef.induct)
  case 1
  show ?case by simp
next
  case (2 x xs)
  have "fst x \<notin> fst ` set (dedupByRef (filter (\<lambda>y. fst y \<noteq> fst x) xs))"
    using dedupByRef_subset [of "filter (\<lambda>y. fst y \<noteq> fst x) xs"] by auto
  with 2 show ?case by simp
qed

lemma ldWindow_associated: "associatedBillboards ldWindow ''UNITED CUP'' = [bb0605]"
  by code_simp

lemma ldOverlap_associated:
  "associatedBillboards ldOverlap ''UNITED CUP'' = [bb0800, bbTwin]"
  "concat (map (windowBillboards ldOverlap)
     (filter (\<lambda>p. titleMatches (snd p) ''UNITED CUP'') (programs ldOverlap)))
   = [bb0800, bbTwin, bb0800, bbTwin]"
  by code_simp+

text \<open>
  C4, as amended. \<open>getBillboardsForProgram\<close> returns exactly the billboards whose
  seconds since midnight lie in the window of some keyword-matching program entry:
  from the program's seconds up to, and excluding, the seconds of the first
  program-type entry after it that has a time (entries without one are passed over),
  or unbounded above when there is no such entry. The windows are taken in the order
  of the matching programs, each billboard object is kept once, where it first occurs
  (by identity, not by content), and no object occurs twice. For the window from
  06:00:00 to 07:00:00 the billboard at 06:05:00 is returned and the one at 07:10:00
  is not.
\<close>

theorem billboards_in_program_windows:
  "getBillboardsForProgram ld kw = associatedBillboards ld kw
   \<and> distinct (map fst (getBillboardsForProgram ld kw))
   \<and> getBillboardsForProgram ldWindow ''UNITED CUP'' = [bb0605]"
  by (simp add: getBillboardsForProgram_eq associatedBillboards_def dedupByRef_distinct
      ldWindow_associated [unfolded associatedBillboards_def])

theorem billboards_in_program_windows_witness:
  "getBillboardsForProgram ldOverlap ''UNITED CUP'' = [bb0800, bbTwin]
   \<and> snd bb0800 = snd bbTwin \<and> fst bb0800 \<noteq> fst bbTwin
   \<and> concat (map (windowBillboards ldOverlap)
        (filter (\<lambda>p. titleMatches (snd p) ''UNITED CUP'') (programs ldOverlap)))
      = [bb0800, bbTwin, bb0800, bbTwin]"
  using billboards_in_program_windows [of ldOverlap "''UNITED CUP''"]
  by (simp add: ldOverlap_associated bbTwin_def bb0800_def sampleEntry_def)

text \<open>
  C4, counterexample. The next program-type entry after the 06:00:00 program has no
  time, and the one after that starts at 07:00:00. Read as stated, the window is
  bounded by the entry without a time, and no billboard lies in it (nor would reading
  it as unbounded fit: the 07:10:00 billboard is after the program's start and is not
  returned). The code passes over the entry without a time and returns the 06:30:00
  billboard.
\<close>

theorem untimed_program_entry_skipped:
  "getBillboardsForProgram ldUntimed ''UNITED CUP'' = [bb0630]
   \<and> nextProgramEntry ldUntimed e0600 = Some pUntimed
   \<and> time (snd pUntimed) = None
   \<and> billboardsAsStated ldUntimed ''UNITED CUP'' = []
   \<and> numLe (secondsOf e0600) (secondsOf bb0710)"
  by code_simp

end
